theory Spec2Isabelle
  imports
    Main
    "HOL-Library.Char_ord"
    "HOL-Library.List_Lexorder"
    "HOL-Library.Product_Lexorder"
    "HOL-Library.Multiset"
    "HOL-Library.Sublist"
begin

text \<open>
  A shallow embedding of the Go standards checker: package \<open>rules\<close> (severities and
  the rule configuration), package \<open>report\<close> (violations, summary, ordering and
  filtering) and package \<open>checker\<close> (the rules evaluated on each file).

  Go strings are byte sequences; they are modelled as \<open>string\<close> (a list of 8-bit
  characters) and compared bytewise and lexicographically, as Go's \<open><\<close> does. Text
  that is not ASCII appears as its UTF-8 bytes. Go's \<open>int\<close> is modelled as \<open>int\<close>:
  every integer of the program is a length, a line number, a configured limit or a
  counter bounded by a slice length.
\<close>

section \<open>Package rules\<close>

subsection \<open>Severities\<close>

type_synonym Severity = string

definition SeverityError :: Severity where
  "SeverityError = ''error''"

definition SeverityWarning :: Severity where
  "SeverityWarning = ''warning''"

definition SeverityInfo :: Severity where
  "SeverityInfo = ''info''"

definition ParseSeverity :: "string \<Rightarrow> Severity" where
  "ParseSeverity s =
     (if s = ''error'' then SeverityError
      else if s = ''warning'' then SeverityWarning
      else SeverityInfo)"

definition Level :: "Severity \<Rightarrow> int" where
  "Level s =
     (if s = SeverityError then 3
      else if s = SeverityWarning then 2
      else 1)"

subsection \<open>Rule configuration\<close>

text \<open>
  The configuration structs, with the fields the checker reads. Go's embedded
  \<open>BaseRule\<close> is a record extension. Field names are those of the source, so several
  records share a field name and selectors are written qualified
  (\<open>NamingConfig.Enabled\<close>).
\<close>

record BaseRule =
  Enabled :: bool
  Severity :: string
  Message :: string

record PatternRule = BaseRule +
  Pattern :: string

record SuffixRule = BaseRule +
  Suffixes :: "string list"

record LimitRule = BaseRule +
  Limit :: int

record IgnoredErrorsRule = BaseRule +
  AllowedPatterns :: "string list"

record AllowedInRule = BaseRule +
  AllowedIn :: "string list"

record DirsRule = BaseRule +
  Dirs :: "string list"

record JSONTagRule = BaseRule +
  Style :: string

record ValidationTagRule = BaseRule +
  RequiredFor :: "string list"

record NamingRulesConfig =
  PackageName :: PatternRule
  ExportedNames :: BaseRule
  FileName :: PatternRule
  InterfaceName :: SuffixRule
  ErrorVar :: PatternRule

record NamingConfig =
  Enabled :: bool
  Rules :: NamingRulesConfig

record StructureRulesConfig =
  MaxFunctionLines :: LimitRule
  MaxNestingLevel :: LimitRule
  MaxParameters :: LimitRule
  MaxReturnValues :: LimitRule

record StructureConfig =
  Enabled :: bool
  Rules :: StructureRulesConfig

record ErrorHandlingRulesConfig =
  NoIgnoredErrors :: IgnoredErrorsRule
  NoPanic :: AllowedInRule

record ErrorHandlingConfig =
  Enabled :: bool
  Rules :: ErrorHandlingRulesConfig

record LoggingRulesConfig =
  NoFmtPrintln :: BaseRule

record LoggingConfig =
  Enabled :: bool
  Rules :: LoggingRulesConfig

record DirectoryRulesConfig =
  RequiredDirs :: DirsRule
  RecommendedDirs :: DirsRule

record DirectoryConfig =
  Enabled :: bool
  Rules :: DirectoryRulesConfig

record StructTagsRulesConfig =
  JSONTag :: JSONTagRule
  ValidationTag :: ValidationTagRule

record StructTagsConfig =
  Enabled :: bool
  Rules :: StructTagsRulesConfig

record CustomRule =
  Name :: string
  Enabled :: bool
  Severity :: string
  Pattern :: string
  Message :: string
  ExcludeFiles :: "string list"

record Config =
  Naming :: NamingConfig
  Structure :: StructureConfig
  ErrorHandling :: ErrorHandlingConfig
  Logging :: LoggingConfig
  Directory :: DirectoryConfig
  StructTags :: StructTagsConfig
  CustomRules :: "CustomRule list"

section \<open>The syntax tree handed over by the parser\<close>

text \<open>
  The parser (\<open>go/parser\<close>, \<open>go/ast\<close>, \<open>go/token\<close>) is Go's standard library. Its
  nodes are modelled with the fields the checker reads; a position is the line and
  column that \<open>fset.Position\<close> returns for the node. A pointer that may be \<open>nil\<close>
  is an \<open>option\<close>.
\<close>

record Position =
  Line :: int
  Column :: int

record Ident =
  NamePos :: Position
  Name :: string

datatype Expr =
    IdentExpr Ident
  | SelectorExpr Expr Ident
  | CallExpr Position Expr
  | OtherExpr

text \<open>
  Statements, as far as \<open>checkNestingLevel\<close> tells them apart. A block is its
  statement list. \<open>IfStmt\<close> carries its body and its \<open>Else\<close>, which the parser
  fills with a \<open>BlockStmt\<close> (\<open>else { }\<close>), an \<open>IfStmt\<close> (\<open>else if\<close>) or
  \<open>nil\<close>. The body of a \<open>SwitchStmt\<close> or \<open>TypeSwitchStmt\<close> holds \<open>CaseClause\<close>
  nodes and the body of a \<open>SelectStmt\<close> holds \<open>CommClause\<close> nodes; the statements
  of a case are inside the clause.
\<close>

datatype Stmt =
    IfStmt "Stmt list option" "Stmt option"
  | ForStmt "Stmt list option"
  | RangeStmt "Stmt list option"
  | SwitchStmt "Stmt list option"
  | SelectStmt "Stmt list option"
  | TypeSwitchStmt "Stmt list option"
  | BlockStmt "Stmt list"
  | CaseClause "Stmt list"
  | CommClause "Stmt list"
  | LabeledStmt Stmt
  | OtherStmt

text \<open>
  A field of a parameter, result or struct field list: one declaration, which may
  name several identifiers (\<open>a, b, c int\<close> is one field with three names) or none
  (an unnamed parameter or result).
\<close>

record Field =
  Pos :: Position
  Names :: "Ident list"
  Tag :: "string option"

record FuncDecl =
  Pos :: Position
  End :: Position
  Name :: Ident
  Params :: "Field list option"
  Results :: "Field list option"
  Body :: "Stmt list option"

datatype Token = VAR | OtherToken

datatype Spec =
    ValueSpec "Ident list" "Expr option"
  | OtherSpec

record GenDecl =
  Tok :: Token
  Specs :: "Spec list"

datatype TypeExpr =
    InterfaceType
  | StructType "Field list option"
  | OtherType

record TypeSpec =
  Pos :: Position
  Name :: Ident
  Type :: TypeExpr

record AssignStmt =
  Pos :: Position
  Lhs :: "Expr list"
  Rhs :: "Expr list"

text \<open>
  \<open>checkFile\<close> walks the tree with \<open>ast.Inspect\<close> and a callback that always
  returns \<open>true\<close>, so the callback sees every node once, in depth-first order. A
  parsed file is modelled as its package identifier and that sequence of nodes.
\<close>

datatype Node =
    FuncDeclNode FuncDecl
  | GenDeclNode GenDecl
  | TypeSpecNode TypeSpec
  | AssignStmtNode AssignStmt
  | CallExprNode Position Expr
  | OtherNode

record File =
  Name :: Ident
  Nodes :: "Node list"

section \<open>Package report\<close>

record Violation =
  File :: string
  Line :: int
  Column :: int
  Rule :: string
  Category :: string
  Severity :: Severity
  Message :: string
  Suggestion :: string
  Code :: string

record Summary =
  TotalViolations :: int
  ByCategory :: "string \<rightharpoonup> int"
  BySeverity :: "string \<rightharpoonup> int"
  PassedRules :: int
  FailedRules :: int

record Report =
  ProjectPath :: string
  TotalFiles :: int
  Violations :: "Violation list"
  Summary :: Summary

definition NewReport :: "string \<Rightarrow> Report" where
  "NewReport projectPath =
     \<lparr>ProjectPath = projectPath, TotalFiles = 0, Violations = [],
      Summary = \<lparr>TotalViolations = 0, ByCategory = Map.empty, BySeverity = Map.empty,
                 PassedRules = 0, FailedRules = 0\<rparr>\<rparr>"

definition AddViolation :: "Report \<Rightarrow> Violation \<Rightarrow> Report" where
  "AddViolation r v = r\<lparr>Violations := Violations r @ [v]\<rparr>"

text \<open>\<open>m[k]++\<close> on a Go map: a missing key reads as 0 and is created.\<close>

definition incr :: "(string \<rightharpoonup> int) \<Rightarrow> string \<Rightarrow> (string \<rightharpoonup> int)" where
  "incr m k = m(k \<mapsto> (case m k of None \<Rightarrow> 0 | Some c \<Rightarrow> c) + 1)"

text \<open>The counting loop of \<open>Finalize\<close>, over the violations in order.\<close>

fun count_loop :: "Summary \<Rightarrow> Violation list \<Rightarrow> Summary" where
  "count_loop s [] = s"
| "count_loop s (v # vs) =
     count_loop (s\<lparr>ByCategory := incr (ByCategory s) (Category v),
                   BySeverity := incr (BySeverity s) (Severity v)\<rparr>) vs"

text \<open>The comparison closure handed to \<open>sort.Slice\<close>.\<close>

definition less_violation :: "Violation \<Rightarrow> Violation \<Rightarrow> bool" where
  "less_violation a b =
     (if Level (Severity a) \<noteq> Level (Severity b) then Level (Severity a) > Level (Severity b)
      else if File a \<noteq> File b then File a < File b
      else Line a < Line b)"

text \<open>
  \<open>sort.Slice\<close> belongs to Go's standard library, not to this program, so \<open>Finalize\<close>
  takes it as a parameter: a function from the comparison and the slice to the
  reordered slice. The library documents that it sorts by the comparison and that the
  sort is not guaranteed to be stable; \<open>sort_Slice_ok\<close> is that contract for the
  comparison used here. What the library's code does on slices of at most 13 elements
  is modelled below (\<open>sort_Slice_upto13\<close>).
\<close>

type_synonym sorter = "(Violation \<Rightarrow> Violation \<Rightarrow> bool) \<Rightarrow> Violation list \<Rightarrow> Violation list"

definition Finalize :: "sorter \<Rightarrow> Report \<Rightarrow> Report" where
  "Finalize sort_Slice r =
     (let s1 = (Summary r)\<lparr>TotalViolations := int (length (Violations r))\<rparr>;
          s2 = count_loop s1 (Violations r)
      in r\<lparr>Summary := s2, Violations := sort_Slice less_violation (Violations r)\<rparr>)"

definition sort_Slice_ok :: "sorter \<Rightarrow> bool" where
  "sort_Slice_ok sort_Slice \<longleftrightarrow>
     (\<forall>xs. mset (sort_Slice less_violation xs) = mset xs \<and>
           sorted_wrt (\<lambda>a b. \<not> less_violation b a) (sort_Slice less_violation xs))"

subsection \<open>The library's sort on short slices\<close>

text \<open>
  \<open>sort.Slice\<close> runs \<open>pdqsort_func\<close> (Go 1.19 and later; the README builds with Go
  1.23). On a range of at most 12 elements that is \<open>insertionSort_func\<close>: each new
  element is swapped downwards while it is less than its left neighbour.
  \<open>insert_down\<close> works on the already sorted prefix, held in reverse (nearest
  neighbour first). \<open>insertionSort_func\<close> is the library's sort only on slices of at
  most 12 elements; on longer slices the library does something else, and the examples
  that use \<open>insertionSort_func\<close> as the sort hold three findings at most.
\<close>

fun insert_down :: "('a \<Rightarrow> 'a \<Rightarrow> bool) \<Rightarrow> 'a \<Rightarrow> 'a list \<Rightarrow> 'a list" where
  "insert_down lt x [] = [x]"
| "insert_down lt x (y # ys) =
     (if lt x y then y # insert_down lt x ys else x # y # ys)"

definition insertionSort_func :: "('a \<Rightarrow> 'a \<Rightarrow> bool) \<Rightarrow> 'a list \<Rightarrow> 'a list" where
  "insertionSort_func lt xs = rev (foldl (\<lambda>p x. insert_down lt x p) [] xs)"

text \<open>\<open>insertionSort_func(data, a, b)\<close>: the same on the range from \<open>a\<close> to \<open>b\<close>.\<close>

definition insertionSort_range ::
  "('a \<Rightarrow> 'a \<Rightarrow> bool) \<Rightarrow> int \<Rightarrow> int \<Rightarrow> 'a list \<Rightarrow> 'a list" where
  "insertionSort_range lt a b xs =
     take (nat a) xs @ insertionSort_func lt (take (nat (b - a)) (drop (nat a) xs)) @
     drop (nat b) xs"

text \<open>
  On a slice of 13 elements \<open>pdqsort_func\<close> chooses a pivot, returns if the slice is
  found in order, and otherwise partitions once and sorts both sides, of at most 12
  elements each, by insertion. The functions below are the library's, with indices as
  Go's \<open>int\<close>: \<open>data.Less(i, j)\<close>, \<open>data.Swap(i, j)\<close>, \<open>order2_func\<close>,
  \<open>median_func\<close>, \<open>medianAdjacent_func\<close>, \<open>choosePivot_func\<close> and
  \<open>partition_func\<close> with its three loops.
\<close>

definition less_at :: "('a \<Rightarrow> 'a \<Rightarrow> bool) \<Rightarrow> 'a list \<Rightarrow> int \<Rightarrow> int \<Rightarrow> bool" where
  "less_at lt xs i j = lt (xs ! nat i) (xs ! nat j)"

definition swap_at :: "int \<Rightarrow> int \<Rightarrow> 'a list \<Rightarrow> 'a list" where
  "swap_at i j xs = xs[nat i := xs ! nat j, nat j := xs ! nat i]"

definition order2_func ::
  "('a \<Rightarrow> 'a \<Rightarrow> bool) \<Rightarrow> 'a list \<Rightarrow> int \<Rightarrow> int \<Rightarrow> nat \<Rightarrow> int \<times> int \<times> nat" where
  "order2_func lt xs a b swaps =
     (if less_at lt xs b a then (b, a, swaps + 1) else (a, b, swaps))"

definition median_func ::
  "('a \<Rightarrow> 'a \<Rightarrow> bool) \<Rightarrow> 'a list \<Rightarrow> int \<Rightarrow> int \<Rightarrow> int \<Rightarrow> nat \<Rightarrow> int \<times> nat" where
  "median_func lt xs a b c swaps =
     (let (a1, b1, s1) = order2_func lt xs a b swaps;
          (b2, c2, s2) = order2_func lt xs b1 c s1;
          (a3, b3, s3) = order2_func lt xs a1 b2 s2
      in (b3, s3))"

definition medianAdjacent_func ::
  "('a \<Rightarrow> 'a \<Rightarrow> bool) \<Rightarrow> 'a list \<Rightarrow> int \<Rightarrow> nat \<Rightarrow> int \<times> nat" where
  "medianAdjacent_func lt xs a swaps = median_func lt xs (a - 1) a (a + 1) swaps"

datatype sortedHint = unknownHint | increasingHint | decreasingHint

definition choosePivot_func ::
  "('a \<Rightarrow> 'a \<Rightarrow> bool) \<Rightarrow> 'a list \<Rightarrow> int \<Rightarrow> int \<Rightarrow> int \<times> sortedHint" where
  "choosePivot_func lt xs a b =
     (let l = b - a;
          i = a + l div 4 * 1;
          j = a + l div 4 * 2;
          k = a + l div 4 * 3;
          (j', swaps) =
            (if l \<ge> 8
             then
               (if l \<ge> 50
                then
                  (let (i1, s1) = medianAdjacent_func lt xs i 0;
                       (j1, s2) = medianAdjacent_func lt xs j s1;
                       (k1, s3) = medianAdjacent_func lt xs k s2
                   in median_func lt xs i1 j1 k1 s3)
                else median_func lt xs i j k 0)
             else (j, 0))
      in (j', if swaps = 0 then increasingHint
              else if swaps = 12 then decreasingHint
              else unknownHint))"

text \<open>The loop \<open>for i <= j && data.Less(i, a) { i++ }\<close> of \<open>partition_func\<close>.\<close>

function scan_up :: "('a \<Rightarrow> 'a \<Rightarrow> bool) \<Rightarrow> 'a list \<Rightarrow> int \<Rightarrow> int \<Rightarrow> int \<Rightarrow> int" where
  "scan_up lt xs a i j =
     (if i \<le> j \<and> less_at lt xs i a then scan_up lt xs a (i + 1) j else i)"
  by pat_completeness auto
termination
  by (relation "measure (\<lambda>(lt, xs, a, i, j). nat (j + 1 - i))") auto

declare scan_up.simps [simp del]

text \<open>The loop \<open>for i <= j && !data.Less(j, a) { j-- }\<close> of \<open>partition_func\<close>.\<close>

function scan_down :: "('a \<Rightarrow> 'a \<Rightarrow> bool) \<Rightarrow> 'a list \<Rightarrow> int \<Rightarrow> int \<Rightarrow> int \<Rightarrow> int" where
  "scan_down lt xs a i j =
     (if i \<le> j \<and> \<not> less_at lt xs j a then scan_down lt xs a i (j - 1) else j)"
  by pat_completeness auto
termination
  by (relation "measure (\<lambda>(lt, xs, a, i, j). nat (j + 1 - i))") auto

declare scan_down.simps [simp del]

text \<open>
  The outer loop of \<open>partition_func\<close>: each round scans up, scans down, stops when
  the indices have crossed and otherwise swaps and moves both indices inwards. It
  returns the slice and the final \<open>j\<close>. The scans never move \<open>i\<close> down or \<open>j\<close>
  up, so every round brings the indices closer and the loop ends.
\<close>

function partition_loop ::
  "('a \<Rightarrow> 'a \<Rightarrow> bool) \<Rightarrow> 'a list \<Rightarrow> int \<Rightarrow> int \<Rightarrow> int \<Rightarrow> 'a list \<times> int" where
  "partition_loop lt xs a i j =
     (let i1 = scan_up lt xs a i j;
          j1 = scan_down lt xs a i1 j
      in if i1 > j1 then (xs, j1)
         else partition_loop lt (swap_at i1 j1 xs) a (i1 + 1) (j1 - 1))"
  by pat_completeness auto
termination
proof -
  have up: "i \<le> scan_up lt xs a i j" for lt :: "'a \<Rightarrow> 'a \<Rightarrow> bool" and xs a i j
    by (induction lt xs a i j rule: scan_up.induct) (subst scan_up.simps, auto)
  have down: "scan_down lt xs a i j \<le> j" for lt :: "'a \<Rightarrow> 'a \<Rightarrow> bool" and xs a i j
    by (induction lt xs a i j rule: scan_down.induct) (subst scan_down.simps, auto)
  show ?thesis
    apply (relation "measure (\<lambda>(lt, xs, a, i, j). nat (j + 1 - i))")
     apply simp
    subgoal for lt xs a i j x xa
      using up [of i lt xs a j] down [of lt xs a x j] by auto
    done
qed

declare partition_loop.simps [simp del]

definition partition_func ::
  "('a \<Rightarrow> 'a \<Rightarrow> bool) \<Rightarrow> 'a list \<Rightarrow> int \<Rightarrow> int \<Rightarrow> int \<Rightarrow> 'a list \<times> int \<times> bool" where
  "partition_func lt xs a b pivot =
     (let xs1 = swap_at a pivot xs;
          i = scan_up lt xs1 a (a + 1) (b - 1);
          j = scan_down lt xs1 a i (b - 1)
      in if i > j then (swap_at j a xs1, j, True)
         else
           (let (xs2, j2) = partition_loop lt (swap_at i j xs1) a (i + 1) (j - 1)
            in (swap_at j2 a xs2, j2, False)))"

text \<open>
  \<open>partialInsertionSort_func\<close> on a range of fewer than 50 elements: it looks for the
  first element less than its left neighbour, returns true when there is none and
  false otherwise, and moves nothing.
\<close>

function first_descent :: "('a \<Rightarrow> 'a \<Rightarrow> bool) \<Rightarrow> 'a list \<Rightarrow> int \<Rightarrow> int \<Rightarrow> int" where
  "first_descent lt xs i b =
     (if i < b \<and> \<not> less_at lt xs i (i - 1) then first_descent lt xs (i + 1) b else i)"
  by pat_completeness auto
termination
  by (relation "measure (\<lambda>(lt, xs, i, b). nat (b - i))") auto

declare first_descent.simps [simp del]

definition partialInsertionSort_short ::
  "('a \<Rightarrow> 'a \<Rightarrow> bool) \<Rightarrow> 'a list \<Rightarrow> int \<Rightarrow> int \<Rightarrow> bool" where
  "partialInsertionSort_short lt xs a b \<longleftrightarrow> first_descent lt xs (a + 1) b = b"

text \<open>
  \<open>pdqsort_func(data, 0, 13, limit)\<close> with its initial flags (\<open>limit\<close> is 4, the
  last partition counts as balanced and partitioned). With three comparisons the swap
  count of \<open>choosePivot_func\<close> cannot reach 12, so the hint is never decreasing; the
  start of the range is 0, so \<open>partitionEqual_func\<close> is not called. After the
  partition at \<open>mid\<close> the two sides hold 12 elements together and are sorted by
  insertion; they do not overlap, so the order in which they are sorted makes no
  difference.
\<close>

definition pdqsort_13 :: "('a \<Rightarrow> 'a \<Rightarrow> bool) \<Rightarrow> 'a list \<Rightarrow> 'a list" where
  "pdqsort_13 lt xs =
     (let (pivot, hint) = choosePivot_func lt xs 0 13
      in if hint = increasingHint \<and> partialInsertionSort_short lt xs 0 13 then xs
         else
           (let (ys, mid, alreadyPartitioned) = partition_func lt xs 0 13 pivot
            in insertionSort_range lt (mid + 1) 13 (insertionSort_range lt 0 mid ys)))"

text \<open>
  \<open>sort.Slice\<close> as the library runs it on slices of at most 13 elements. What it
  does on longer slices is not modelled and is the parameter \<open>longer\<close>.
\<close>

definition sort_Slice_upto13 ::
  "(('a \<Rightarrow> 'a \<Rightarrow> bool) \<Rightarrow> 'a list \<Rightarrow> 'a list) \<Rightarrow> ('a \<Rightarrow> 'a \<Rightarrow> bool) \<Rightarrow> 'a list \<Rightarrow> 'a list" where
  "sort_Slice_upto13 longer lt xs =
     (if length xs \<le> 12 then insertionSort_func lt xs
      else if length xs = 13 then pdqsort_13 lt xs
      else longer lt xs)"

text \<open>
  Report objects are reached through pointers, and \<open>Filter\<close> builds a second Report
  beside its receiver. To tell the two apart, \<open>Filter\<close> is modelled over a store of
  Report objects: an address is an index into the store and allocation appends.
\<close>

type_synonym store = "Report list"

definition alloc_Report :: "store \<Rightarrow> Report \<Rightarrow> nat \<times> store" where
  "alloc_Report h r = (length h, h @ [r])"

text \<open>The loop of \<open>Filter\<close>: \<open>f\<close> is the address of the new Report.\<close>

fun Filter_loop :: "store \<Rightarrow> nat \<Rightarrow> Severity \<Rightarrow> Violation list \<Rightarrow> store" where
  "Filter_loop h f minSeverity [] = h"
| "Filter_loop h f minSeverity (v # vs) =
     (if Level (Severity v) \<ge> Level minSeverity
      then Filter_loop (h[f := AddViolation (h ! f) v]) f minSeverity vs
      else Filter_loop h f minSeverity vs)"

definition Filter :: "sorter \<Rightarrow> store \<Rightarrow> nat \<Rightarrow> Severity \<Rightarrow> nat \<times> store" where
  "Filter sort_Slice h r minSeverity =
     (let (f, h1) = alloc_Report h (NewReport (ProjectPath (h ! r)));
          h2 = h1[f := (h1 ! f)\<lparr>TotalFiles := TotalFiles (h1 ! r)\<rparr>];
          h3 = Filter_loop h2 f minSeverity (Violations (h2 ! r));
          h4 = h3[f := Finalize sort_Slice (h3 ! f)]
      in (f, h4))"

section \<open>Package checker\<close>

subsection \<open>Formatted messages\<close>

text \<open>\<open>%d\<close> of \<open>fmt.Sprintf\<close>: the decimal digits, with a minus sign when negative.\<close>

fun digits :: "nat \<Rightarrow> string" where
  "digits n =
     (if n < 10 then [char_of (48 + n)]
      else digits (n div 10) @ [char_of (48 + n mod 10)])"

declare digits.simps [simp del]

definition itoa :: "int \<Rightarrow> string" where
  "itoa i = (if i < 0 then CHR ''-'' # digits (nat (- i)) else digits (nat i))"

text \<open>\<open>%v\<close> of a string slice: the elements between brackets, separated by spaces.\<close>

fun join_space :: "string list \<Rightarrow> string" where
  "join_space [] = []"
| "join_space [x] = x"
| "join_space (x # y # ys) = x @ '' '' @ join_space (y # ys)"

definition fmt_strings :: "string list \<Rightarrow> string" where
  "fmt_strings xs = ''['' @ join_space xs @ '']''"

text \<open>
  The calls of \<open>fmt.Sprintf\<close> of the checker, one definition for each format string,
  and the fixed suggestion texts. The texts of the source are Japanese; they appear as
  their UTF-8 bytes.
\<close>

definition Sprintf_package_name :: "string \<Rightarrow> string \<Rightarrow> string" where
  "Sprintf_package_name message pkgName = message @ ('': '' @ [CHR 0x27]) @ pkgName
      @ [CHR 0x27]"

definition Sprintf_exported_name :: "string \<Rightarrow> string" where
  "Sprintf_exported_name funcName = ([CHR 0xE5, CHR 0x85, CHR 0xAC, CHR 0xE9, CHR 0x96,
      CHR 0x8B, CHR 0xE9, CHR 0x96, CHR 0xA2, CHR 0xE6, CHR 0x95, CHR 0xB0] @ '' ''
      @ [CHR 0x27]) @ funcName @ ([CHR 0x27] @ '' '' @ [CHR 0xE3, CHR 0x81, CHR 0xAF]
      @ ''PascalCase'' @ [CHR 0xE3, CHR 0x81, CHR 0xA7, CHR 0xE5, CHR 0x91, CHR 0xBD, CHR 0xE5,
      CHR 0x90, CHR 0x8D, CHR 0xE3, CHR 0x81, CHR 0x97, CHR 0xE3, CHR 0x81, CHR 0xA6, CHR 0xE3,
      CHR 0x81, CHR 0x8F, CHR 0xE3, CHR 0x81, CHR 0xA0, CHR 0xE3, CHR 0x81, CHR 0x95, CHR 0xE3,
      CHR 0x81, CHR 0x84])"

definition Sprintf_max_function_lines :: "string \<Rightarrow> int \<Rightarrow> int \<Rightarrow> string" where
  "Sprintf_max_function_lines funcName lineCount limit =
     ([CHR 0xE9, CHR 0x96, CHR 0xA2, CHR 0xE6, CHR 0x95, CHR 0xB0] @ '' '' @ [CHR 0x27])
         @ funcName @ ([CHR 0x27] @ '' '' @ [CHR 0xE3, CHR 0x81, CHR 0xAF]) @ itoa lineCount
         @ ([CHR 0xE8, CHR 0xA1, CHR 0x8C, CHR 0xE3, CHR 0x81, CHR 0x82, CHR 0xE3, CHR 0x82,
         CHR 0x8A, CHR 0xE3, CHR 0x81, CHR 0xBE, CHR 0xE3, CHR 0x81, CHR 0x99, CHR 0xEF,
         CHR 0xBC, CHR 0x88, CHR 0xE4, CHR 0xB8, CHR 0x8A, CHR 0xE9, CHR 0x99, CHR 0x90]
         @ '': '') @ itoa limit @ [CHR 0xE8, CHR 0xA1, CHR 0x8C, CHR 0xEF, CHR 0xBC, CHR 0x89]"

definition Suggestion_max_function_lines :: string where
  "Suggestion_max_function_lines = [CHR 0xE9, CHR 0x96, CHR 0xA2, CHR 0xE6, CHR 0x95, CHR 0xB0,
      CHR 0xE3, CHR 0x82, CHR 0x92, CHR 0xE5, CHR 0x88, CHR 0x86, CHR 0xE5, CHR 0x89, CHR 0xB2,
      CHR 0xE3, CHR 0x81, CHR 0x97, CHR 0xE3, CHR 0x81, CHR 0xA6, CHR 0xE3, CHR 0x81, CHR 0x8F,
      CHR 0xE3, CHR 0x81, CHR 0xA0, CHR 0xE3, CHR 0x81, CHR 0x95, CHR 0xE3, CHR 0x81, CHR 0x84]"

definition Sprintf_max_parameters :: "string \<Rightarrow> int \<Rightarrow> int \<Rightarrow> string" where
  "Sprintf_max_parameters funcName paramCount limit =
     ([CHR 0xE9, CHR 0x96, CHR 0xA2, CHR 0xE6, CHR 0x95, CHR 0xB0] @ '' '' @ [CHR 0x27])
         @ funcName @ ([CHR 0x27] @ '' '' @ [CHR 0xE3, CHR 0x81, CHR 0xAE, CHR 0xE3, CHR 0x83,
         CHR 0x91, CHR 0xE3, CHR 0x83, CHR 0xA9, CHR 0xE3, CHR 0x83, CHR 0xA1, CHR 0xE3,
         CHR 0x83, CHR 0xBC, CHR 0xE3, CHR 0x82, CHR 0xBF, CHR 0xE6, CHR 0x95, CHR 0xB0,
         CHR 0xE3, CHR 0x81, CHR 0xAF]) @ itoa paramCount @ ([CHR 0xE5, CHR 0x80, CHR 0x8B,
         CHR 0xE3, CHR 0x81, CHR 0xA7, CHR 0xE3, CHR 0x81, CHR 0x99, CHR 0xEF, CHR 0xBC,
         CHR 0x88, CHR 0xE4, CHR 0xB8, CHR 0x8A, CHR 0xE9, CHR 0x99, CHR 0x90] @ '': '')
         @ itoa limit @ [CHR 0xE5, CHR 0x80, CHR 0x8B, CHR 0xEF, CHR 0xBC, CHR 0x89]"

definition Suggestion_max_parameters :: string where
  "Suggestion_max_parameters = [CHR 0xE3, CHR 0x83, CHR 0x91, CHR 0xE3, CHR 0x83, CHR 0xA9,
      CHR 0xE3, CHR 0x83, CHR 0xA1, CHR 0xE3, CHR 0x83, CHR 0xBC, CHR 0xE3, CHR 0x82, CHR 0xBF,
      CHR 0xE3, CHR 0x82, CHR 0x92, CHR 0xE6, CHR 0xA7, CHR 0x8B, CHR 0xE9, CHR 0x80, CHR 0xA0,
      CHR 0xE4, CHR 0xBD, CHR 0x93, CHR 0xE3, CHR 0x81, CHR 0xAB, CHR 0xE3, CHR 0x81, CHR 0xBE,
      CHR 0xE3, CHR 0x81, CHR 0xA8, CHR 0xE3, CHR 0x82, CHR 0x81, CHR 0xE3, CHR 0x82, CHR 0x8B,
      CHR 0xE3, CHR 0x81, CHR 0x93, CHR 0xE3, CHR 0x81, CHR 0xA8, CHR 0xE3, CHR 0x82, CHR 0x92,
      CHR 0xE6, CHR 0xA4, CHR 0x9C, CHR 0xE8, CHR 0xA8, CHR 0x8E, CHR 0xE3, CHR 0x81, CHR 0x97,
      CHR 0xE3, CHR 0x81, CHR 0xA6, CHR 0xE3, CHR 0x81, CHR 0x8F, CHR 0xE3, CHR 0x81, CHR 0xA0,
      CHR 0xE3, CHR 0x81, CHR 0x95, CHR 0xE3, CHR 0x81, CHR 0x84]"

definition Sprintf_max_return_values :: "string \<Rightarrow> int \<Rightarrow> int \<Rightarrow> string" where
  "Sprintf_max_return_values funcName resultCount limit =
     ([CHR 0xE9, CHR 0x96, CHR 0xA2, CHR 0xE6, CHR 0x95, CHR 0xB0] @ '' '' @ [CHR 0x27])
         @ funcName @ ([CHR 0x27] @ '' '' @ [CHR 0xE3, CHR 0x81, CHR 0xAE, CHR 0xE6, CHR 0x88,
         CHR 0xBB, CHR 0xE3, CHR 0x82, CHR 0x8A, CHR 0xE5, CHR 0x80, CHR 0xA4, CHR 0xE6,
         CHR 0x95, CHR 0xB0, CHR 0xE3, CHR 0x81, CHR 0xAF]) @ itoa resultCount @ ([CHR 0xE5,
         CHR 0x80, CHR 0x8B, CHR 0xE3, CHR 0x81, CHR 0xA7, CHR 0xE3, CHR 0x81, CHR 0x99,
         CHR 0xEF, CHR 0xBC, CHR 0x88, CHR 0xE4, CHR 0xB8, CHR 0x8A, CHR 0xE9, CHR 0x99,
         CHR 0x90] @ '': '') @ itoa limit @ [CHR 0xE5, CHR 0x80, CHR 0x8B, CHR 0xEF, CHR 0xBC,
         CHR 0x89]"

definition Suggestion_max_return_values :: string where
  "Suggestion_max_return_values = [CHR 0xE6, CHR 0x88, CHR 0xBB, CHR 0xE3, CHR 0x82, CHR 0x8A,
      CHR 0xE5, CHR 0x80, CHR 0xA4, CHR 0xE3, CHR 0x82, CHR 0x92, CHR 0xE6, CHR 0xA7, CHR 0x8B,
      CHR 0xE9, CHR 0x80, CHR 0xA0, CHR 0xE4, CHR 0xBD, CHR 0x93, CHR 0xE3, CHR 0x81, CHR 0xAB,
      CHR 0xE3, CHR 0x81, CHR 0xBE, CHR 0xE3, CHR 0x81, CHR 0xA8, CHR 0xE3, CHR 0x82, CHR 0x81,
      CHR 0xE3, CHR 0x82, CHR 0x8B, CHR 0xE3, CHR 0x81, CHR 0x93, CHR 0xE3, CHR 0x81, CHR 0xA8,
      CHR 0xE3, CHR 0x82, CHR 0x92, CHR 0xE6, CHR 0xA4, CHR 0x9C, CHR 0xE8, CHR 0xA8, CHR 0x8E,
      CHR 0xE3, CHR 0x81, CHR 0x97, CHR 0xE3, CHR 0x81, CHR 0xA6, CHR 0xE3, CHR 0x81, CHR 0x8F,
      CHR 0xE3, CHR 0x81, CHR 0xA0, CHR 0xE3, CHR 0x81, CHR 0x95, CHR 0xE3, CHR 0x81, CHR 0x84]"

definition Sprintf_max_nesting_level :: "string \<Rightarrow> int \<Rightarrow> int \<Rightarrow> string" where
  "Sprintf_max_nesting_level funcName maxNest limit =
     ([CHR 0xE9, CHR 0x96, CHR 0xA2, CHR 0xE6, CHR 0x95, CHR 0xB0] @ '' '' @ [CHR 0x27])
         @ funcName @ ([CHR 0x27] @ '' '' @ [CHR 0xE3, CHR 0x81, CHR 0xAE, CHR 0xE3, CHR 0x83,
         CHR 0x8D, CHR 0xE3, CHR 0x82, CHR 0xB9, CHR 0xE3, CHR 0x83, CHR 0x88, CHR 0xE3,
         CHR 0x83, CHR 0xAC, CHR 0xE3, CHR 0x83, CHR 0x99, CHR 0xE3, CHR 0x83, CHR 0xAB,
         CHR 0xE3, CHR 0x81, CHR 0xAF]) @ itoa maxNest @ ([CHR 0xE3, CHR 0x81, CHR 0xA7,
         CHR 0xE3, CHR 0x81, CHR 0x99, CHR 0xEF, CHR 0xBC, CHR 0x88, CHR 0xE4, CHR 0xB8,
         CHR 0x8A, CHR 0xE9, CHR 0x99, CHR 0x90] @ '': '') @ itoa limit @ [CHR 0xEF, CHR 0xBC,
         CHR 0x89]"

definition Suggestion_max_nesting_level :: string where
  "Suggestion_max_nesting_level = [CHR 0xE6, CHR 0x97, CHR 0xA9, CHR 0xE6, CHR 0x9C, CHR 0x9F,
      CHR 0xE3, CHR 0x83, CHR 0xAA, CHR 0xE3, CHR 0x82, CHR 0xBF, CHR 0xE3, CHR 0x83, CHR 0xBC,
      CHR 0xE3, CHR 0x83, CHR 0xB3, CHR 0xE3, CHR 0x82, CHR 0x92, CHR 0xE4, CHR 0xBD, CHR 0xBF,
      CHR 0xE7, CHR 0x94, CHR 0xA8, CHR 0xE3, CHR 0x81, CHR 0x97, CHR 0xE3, CHR 0x81, CHR 0xA6,
      CHR 0xE3, CHR 0x83, CHR 0x8D, CHR 0xE3, CHR 0x82, CHR 0xB9, CHR 0xE3, CHR 0x83, CHR 0x88,
      CHR 0xE3, CHR 0x82, CHR 0x92, CHR 0xE6, CHR 0xB5, CHR 0x85, CHR 0xE3, CHR 0x81, CHR 0x8F,
      CHR 0xE3, CHR 0x81, CHR 0x97, CHR 0xE3, CHR 0x81, CHR 0xA6, CHR 0xE3, CHR 0x81, CHR 0x8F,
      CHR 0xE3, CHR 0x81, CHR 0xA0, CHR 0xE3, CHR 0x81, CHR 0x95, CHR 0xE3, CHR 0x81, CHR 0x84]"

definition Sprintf_interface_name :: "string \<Rightarrow> string list \<Rightarrow> string" where
  "Sprintf_interface_name typeName sfxs =
     ([CHR 0xE3, CHR 0x82, CHR 0xA4, CHR 0xE3, CHR 0x83, CHR 0xB3, CHR 0xE3, CHR 0x82,
         CHR 0xBF, CHR 0xE3, CHR 0x83, CHR 0x95, CHR 0xE3, CHR 0x82, CHR 0xA7, CHR 0xE3,
         CHR 0x83, CHR 0xBC, CHR 0xE3, CHR 0x82, CHR 0xB9] @ '' '' @ [CHR 0x27]) @ typeName
         @ ([CHR 0x27] @ '' '' @ [CHR 0xE3, CHR 0x81, CHR 0xAF, CHR 0xE6, CHR 0xA8, CHR 0x99,
         CHR 0xE6, CHR 0xBA, CHR 0x96, CHR 0xE7, CHR 0x9A, CHR 0x84, CHR 0xE3, CHR 0x81,
         CHR 0xAA, CHR 0xE3, CHR 0x82, CHR 0xB5, CHR 0xE3, CHR 0x83, CHR 0x95, CHR 0xE3,
         CHR 0x82, CHR 0xA3, CHR 0xE3, CHR 0x83, CHR 0x83, CHR 0xE3, CHR 0x82, CHR 0xAF,
         CHR 0xE3, CHR 0x82, CHR 0xB9] @ ''('') @ fmt_strings sfxs @ ('')'' @ [CHR 0xE3,
         CHR 0x82, CHR 0x92, CHR 0xE4, CHR 0xBD, CHR 0xBF, CHR 0xE7, CHR 0x94, CHR 0xA8,
         CHR 0xE3, CHR 0x81, CHR 0x97, CHR 0xE3, CHR 0x81, CHR 0xA6, CHR 0xE3, CHR 0x81,
         CHR 0x8F, CHR 0xE3, CHR 0x81, CHR 0xA0, CHR 0xE3, CHR 0x81, CHR 0x95, CHR 0xE3,
         CHR 0x81, CHR 0x84])"

definition Sprintf_json_tag :: "string \<Rightarrow> string \<Rightarrow> string" where
  "Sprintf_json_tag jsonName style = (''JSON'' @ [CHR 0xE3, CHR 0x82, CHR 0xBF, CHR 0xE3,
      CHR 0x82, CHR 0xB0] @ '' '' @ [CHR 0x27]) @ jsonName @ ([CHR 0x27] @ '' '' @ [CHR 0xE3,
      CHR 0x81, CHR 0xAF]) @ style @ [CHR 0xE3, CHR 0x81, CHR 0xA7, CHR 0xE5, CHR 0x91,
      CHR 0xBD, CHR 0xE5, CHR 0x90, CHR 0x8D, CHR 0xE3, CHR 0x81, CHR 0x97, CHR 0xE3, CHR 0x81,
      CHR 0xA6, CHR 0xE3, CHR 0x81, CHR 0x8F, CHR 0xE3, CHR 0x81, CHR 0xA0, CHR 0xE3, CHR 0x81,
      CHR 0x95, CHR 0xE3, CHR 0x81, CHR 0x84]"

definition Sprintf_json_suggestion :: "string \<Rightarrow> string" where
  "Sprintf_json_suggestion name = (''json:'' @ [CHR 0x22]) @ name @ [CHR 0x22]"

definition Sprintf_error_var :: "string \<Rightarrow> string" where
  "Sprintf_error_var name = ([CHR 0xE3, CHR 0x82, CHR 0xA8, CHR 0xE3, CHR 0x83, CHR 0xA9,
      CHR 0xE3, CHR 0x83, CHR 0xBC, CHR 0xE5, CHR 0xA4, CHR 0x89, CHR 0xE6, CHR 0x95,
      CHR 0xB0] @ '' '' @ [CHR 0x27]) @ name @ ([CHR 0x27] @ '' '' @ [CHR 0xE3, CHR 0x81,
      CHR 0xAF] @ ''Err'' @ [CHR 0xE3, CHR 0x83, CHR 0x97, CHR 0xE3, CHR 0x83, CHR 0xAC,
      CHR 0xE3, CHR 0x83, CHR 0x95, CHR 0xE3, CHR 0x82, CHR 0xA3, CHR 0xE3, CHR 0x83, CHR 0x83,
      CHR 0xE3, CHR 0x82, CHR 0xAF, CHR 0xE3, CHR 0x82, CHR 0xB9, CHR 0xE3, CHR 0x81, CHR 0xA7,
      CHR 0xE5, CHR 0x91, CHR 0xBD, CHR 0xE5, CHR 0x90, CHR 0x8D, CHR 0xE3, CHR 0x81, CHR 0x97,
      CHR 0xE3, CHR 0x81, CHR 0xA6, CHR 0xE3, CHR 0x81, CHR 0x8F, CHR 0xE3, CHR 0x81, CHR 0xA0,
      CHR 0xE3, CHR 0x81, CHR 0x95, CHR 0xE3, CHR 0x81, CHR 0x84])"

definition Suggestion_no_ignored_errors :: string where
  "Suggestion_no_ignored_errors = [CHR 0xE3, CHR 0x82, CHR 0xA8, CHR 0xE3, CHR 0x83, CHR 0xA9,
      CHR 0xE3, CHR 0x83, CHR 0xBC, CHR 0xE3, CHR 0x82, CHR 0x92, CHR 0xE9, CHR 0x81, CHR 0xA9,
      CHR 0xE5, CHR 0x88, CHR 0x87, CHR 0xE3, CHR 0x81, CHR 0xAB, CHR 0xE3, CHR 0x83, CHR 0x8F,
      CHR 0xE3, CHR 0x83, CHR 0xB3, CHR 0xE3, CHR 0x83, CHR 0x89, CHR 0xE3, CHR 0x83, CHR 0xAA,
      CHR 0xE3, CHR 0x83, CHR 0xB3, CHR 0xE3, CHR 0x82, CHR 0xB0, CHR 0xE3, CHR 0x81, CHR 0x97,
      CHR 0xE3, CHR 0x81, CHR 0xA6, CHR 0xE3, CHR 0x81, CHR 0x8F, CHR 0xE3, CHR 0x81, CHR 0xA0,
      CHR 0xE3, CHR 0x81, CHR 0x95, CHR 0xE3, CHR 0x81, CHR 0x84]"

definition Suggestion_no_panic :: string where
  "Suggestion_no_panic = [CHR 0xE3, CHR 0x82, CHR 0xA8, CHR 0xE3, CHR 0x83, CHR 0xA9, CHR 0xE3,
      CHR 0x83, CHR 0xBC, CHR 0xE3, CHR 0x82, CHR 0x92, CHR 0xE8, CHR 0xBF, CHR 0x94, CHR 0xE5,
      CHR 0x8D, CHR 0xB4, CHR 0xE3, CHR 0x81, CHR 0x97, CHR 0xE3, CHR 0x81, CHR 0xA6, CHR 0xE3,
      CHR 0x81, CHR 0x8F, CHR 0xE3, CHR 0x81, CHR 0xA0, CHR 0xE3, CHR 0x81, CHR 0x95, CHR 0xE3,
      CHR 0x81, CHR 0x84]"

definition Suggestion_no_fmt_println :: string where
  "Suggestion_no_fmt_println = ([CHR 0xE6, CHR 0xA7, CHR 0x8B, CHR 0xE9, CHR 0x80, CHR 0xA0,
      CHR 0xE5, CHR 0x8C, CHR 0x96, CHR 0xE3, CHR 0x83, CHR 0xAD, CHR 0xE3, CHR 0x82, CHR 0xB0,
      CHR 0xE3, CHR 0x83, CHR 0xA9, CHR 0xE3, CHR 0x82, CHR 0xA4, CHR 0xE3, CHR 0x83, CHR 0x96,
      CHR 0xE3, CHR 0x83, CHR 0xA9, CHR 0xE3, CHR 0x83, CHR 0xAA, CHR 0xEF, CHR 0xBC,
      CHR 0x88] @ ''zerolog'' @ [CHR 0xE7, CHR 0xAD, CHR 0x89, CHR 0xEF, CHR 0xBC, CHR 0x89,
      CHR 0xE3, CHR 0x82, CHR 0x92, CHR 0xE4, CHR 0xBD, CHR 0xBF, CHR 0xE7, CHR 0x94, CHR 0xA8,
      CHR 0xE3, CHR 0x81, CHR 0x97, CHR 0xE3, CHR 0x81, CHR 0xA6, CHR 0xE3, CHR 0x81, CHR 0x8F,
      CHR 0xE3, CHR 0x81, CHR 0xA0, CHR 0xE3, CHR 0x81, CHR 0x95, CHR 0xE3, CHR 0x81,
      CHR 0x84])"

definition Sprintf_required_dirs :: "string \<Rightarrow> string" where
  "Sprintf_required_dirs dir = ([CHR 0xE5, CHR 0xBF, CHR 0x85, CHR 0xE9, CHR 0xA0, CHR 0x88,
      CHR 0xE3, CHR 0x83, CHR 0x87, CHR 0xE3, CHR 0x82, CHR 0xA3, CHR 0xE3, CHR 0x83, CHR 0xAC,
      CHR 0xE3, CHR 0x82, CHR 0xAF, CHR 0xE3, CHR 0x83, CHR 0x88, CHR 0xE3, CHR 0x83,
      CHR 0xAA] @ '' '' @ [CHR 0x27]) @ dir @ ([CHR 0x27] @ '' '' @ [CHR 0xE3, CHR 0x81,
      CHR 0x8C, CHR 0xE8, CHR 0xA6, CHR 0x8B, CHR 0xE3, CHR 0x81, CHR 0xA4, CHR 0xE3, CHR 0x81,
      CHR 0x8B, CHR 0xE3, CHR 0x82, CHR 0x8A, CHR 0xE3, CHR 0x81, CHR 0xBE, CHR 0xE3, CHR 0x81,
      CHR 0x9B, CHR 0xE3, CHR 0x82, CHR 0x93])"

definition Sprintf_recommended_dirs :: "string \<Rightarrow> string" where
  "Sprintf_recommended_dirs dir = ([CHR 0xE6, CHR 0x8E, CHR 0xA8, CHR 0xE5, CHR 0xA5, CHR 0xA8,
      CHR 0xE3, CHR 0x83, CHR 0x87, CHR 0xE3, CHR 0x82, CHR 0xA3, CHR 0xE3, CHR 0x83, CHR 0xAC,
      CHR 0xE3, CHR 0x82, CHR 0xAF, CHR 0xE3, CHR 0x83, CHR 0x88, CHR 0xE3, CHR 0x83,
      CHR 0xAA] @ '' '' @ [CHR 0x27]) @ dir @ ([CHR 0x27] @ '' '' @ [CHR 0xE3, CHR 0x81,
      CHR 0x8C, CHR 0xE8, CHR 0xA6, CHR 0x8B, CHR 0xE3, CHR 0x81, CHR 0xA4, CHR 0xE3, CHR 0x81,
      CHR 0x8B, CHR 0xE3, CHR 0x82, CHR 0x8A, CHR 0xE3, CHR 0x81, CHR 0xBE, CHR 0xE3, CHR 0x81,
      CHR 0x9B, CHR 0xE3, CHR 0x82, CHR 0x93])"

subsection \<open>The library and the file system\<close>

text \<open>
  What the checker calls outside this program is collected in one record and passed to
  every function: Go's \<open>sort\<close>, \<open>regexp\<close>, \<open>path/filepath\<close>, \<open>strings\<close>,
  \<open>unicode\<close> and \<open>unicode/utf8\<close> packages, the parser and the file system.
  \<^item> \<open>regexp_Compile p\<close> is \<open>None\<close> when the pattern \<open>p\<close> does not compile, and
    otherwise the compiled pattern's \<open>MatchString\<close>.
  \<^item> \<open>filepath_Match p n\<close> is the first result of \<open>filepath.Match\<close>; the program
    discards the error.
  \<^item> A rune is a natural number; \<open>utf8_DecodeRuneInString\<close> returns the first rune
    of a string and its width in bytes.
  \<^item> \<open>os_Stat_IsNotExist p\<close> tells whether \<open>os.Stat p\<close> fails with a not-exist error.
  \<^item> \<open>os_ScanLines p\<close> is the outcome of opening \<open>p\<close> and scanning it line by line,
    \<open>parser_ParseFile p\<close> the outcome of parsing it; an error is its message.
  \<^item> \<open>collectGoFiles\<close>, the directory walk of the program, only enumerates paths; its
    outcome is taken from the environment as well.
\<close>

record Env =
  sort_Slice :: sorter
  regexp_Compile :: "string \<Rightarrow> (string \<Rightarrow> bool) option"
  filepath_Match :: "string \<Rightarrow> string \<Rightarrow> bool"
  filepath_Base :: "string \<Rightarrow> string"
  filepath_Join :: "string \<Rightarrow> string \<Rightarrow> string"
  strings_TrimSpace :: "string \<Rightarrow> string"
  strings_ToLower :: "string \<Rightarrow> string"
  utf8_DecodeRuneInString :: "string \<Rightarrow> nat \<times> nat"
  utf8_AppendRune :: "nat \<Rightarrow> string"
  unicode_IsUpper :: "nat \<Rightarrow> bool"
  os_Stat_IsNotExist :: "string \<Rightarrow> bool"
  os_ScanLines :: "string \<Rightarrow> string + string list"
  parser_ParseFile :: "string \<Rightarrow> string + File"
  collectGoFiles :: "string \<Rightarrow> string + string list"

text \<open>\<open>regexp.MatchString(pattern, s)\<close> with its error discarded.\<close>

definition regexp_MatchString :: "Env \<Rightarrow> string \<Rightarrow> string \<Rightarrow> bool" where
  "regexp_MatchString env pattern s =
     (case regexp_Compile env pattern of None \<Rightarrow> False | Some re \<Rightarrow> re s)"

text \<open>\<open>ast.IsExported\<close>: the first rune of the name is an upper-case letter.\<close>

definition ast_IsExported :: "Env \<Rightarrow> string \<Rightarrow> bool" where
  "ast_IsExported env name = unicode_IsUpper env (fst (utf8_DecodeRuneInString env name))"

definition strings_TrimSuffix :: "string \<Rightarrow> string \<Rightarrow> string" where
  "strings_TrimSuffix s sfx = (if suffix sfx s then take (length s - length sfx) s else s)"

definition strings_TrimPrefix :: "string \<Rightarrow> string \<Rightarrow> string" where
  "strings_TrimPrefix s pfx = (if prefix pfx s then drop (length pfx) s else s)"

subsection \<open>The checker and its helpers\<close>

text \<open>
  The checker's state: the configuration, the report being built, the cache of file
  lines, and what has been printed on standard output. Every method returns the
  updated state.
\<close>

record Checker =
  config :: Config
  report :: Report
  fileMap :: "string \<rightharpoonup> string list"
  stdout :: "string list"

text \<open>
  \<open>NewChecker\<close> leaves the \<open>report\<close> pointer \<open>nil\<close>; \<open>Check\<close> assigns it
  before anything reads it, and the checks are methods that only \<open>Check\<close> calls. The
  record has no \<open>nil\<close>: \<open>NewChecker\<close> holds an empty Report there, which \<open>Check\<close>
  replaces, and the properties of the checks are stated for states in which \<open>Check\<close>
  has assigned the report.
\<close>

definition NewChecker :: "Config \<Rightarrow> Checker" where
  "NewChecker cfg =
     \<lparr>config = cfg, report = NewReport [], fileMap = Map.empty, stdout = []\<rparr>"

definition addViolation :: "Checker \<Rightarrow> Violation \<Rightarrow> Checker" where
  "addViolation c v = c\<lparr>report := AddViolation (report c) v\<rparr>"

definition readFileLines :: "Env \<Rightarrow> string \<Rightarrow> string + string list" where
  "readFileLines env filePath = os_ScanLines env filePath"

definition getCodeLine :: "Checker \<Rightarrow> string \<Rightarrow> int \<Rightarrow> string" where
  "getCodeLine c filePath line =
     (case fileMap c filePath of
        None \<Rightarrow> []
      | Some lines \<Rightarrow>
          if line < 1 \<or> line > int (length lines) then [] else lines ! nat (line - 1))"

definition isPascalCase :: "string \<Rightarrow> bool" where
  "isPascalCase s =
     (if length s = 0 then False
      else if s ! 0 < CHR ''A'' \<or> s ! 0 > CHR ''Z'' then False
      else True)"

definition isCamelCase :: "string \<Rightarrow> bool" where
  "isCamelCase s =
     (if length s = 0 then False
      else if s ! 0 < CHR ''a'' \<or> s ! 0 > CHR ''z'' then False
      else True)"

text \<open>
  \<open>isSnakeCase\<close> matches against the fixed pattern \<open>^[a-z][a-z0-9_]*$\<close>, which
  compiles; the model is the language of that pattern.
\<close>

definition isSnakeCase :: "string \<Rightarrow> bool" where
  "isSnakeCase s =
     (case s of
        [] \<Rightarrow> False
      | c # cs \<Rightarrow>
          (CHR ''a'' \<le> c \<and> c \<le> CHR ''z'') \<and>
          list_all (\<lambda>d. (CHR ''a'' \<le> d \<and> d \<le> CHR ''z'') \<or> (CHR ''0'' \<le> d \<and> d \<le> CHR ''9'') \<or>
                        d = CHR ''_'') cs)"

text \<open>
  \<open>toSnakeCase\<close> ranges over the runes of the string: \<open>i\<close> is the byte offset of the
  current rune. A decoded rune is at least one byte wide.
\<close>

function toSnakeCase_loop :: "Env \<Rightarrow> nat \<Rightarrow> string \<Rightarrow> string" where
  "toSnakeCase_loop env i s =
     (if s = [] then []
      else
        (let (r, size) = utf8_DecodeRuneInString env s;
             n = max 1 size
         in (if i > 0 \<and> r \<ge> 65 \<and> r \<le> 90 then ''_'' else []) @ utf8_AppendRune env r @
            toSnakeCase_loop env (i + n) (drop n s)))"
  by pat_completeness auto
termination
  by (relation "measure (\<lambda>(env, i, s). length s)") auto

declare toSnakeCase_loop.simps [simp del]

definition toSnakeCase :: "Env \<Rightarrow> string \<Rightarrow> string" where
  "toSnakeCase env s = strings_ToLower env (toSnakeCase_loop env 0 s)"

subsection \<open>File and package names\<close>

definition checkFileName :: "Env \<Rightarrow> Checker \<Rightarrow> string \<Rightarrow> Checker" where
  "checkFileName env c filePath =
     (let fileName = filepath_Base env filePath;
          rule = FileName (NamingConfig.Rules (Naming (config c)))
      in case regexp_Compile env (PatternRule.Pattern rule) of
           None \<Rightarrow> c
         | Some pattern \<Rightarrow>
             if \<not> pattern fileName
             then addViolation c
               \<lparr>File = filePath, Line = 1, Column = 0, Rule = ''file_name'',
                Category = ''naming'', Severity = ParseSeverity (BaseRule.Severity rule),
                Message = BaseRule.Message rule,
                Suggestion = ''Rename to: '' @
                  toSnakeCase env (strings_TrimSuffix fileName ''.go'') @ ''.go'',
                Code = []\<rparr>
             else c)"

definition checkPackageName :: "Env \<Rightarrow> Checker \<Rightarrow> File \<Rightarrow> string \<Rightarrow> Checker" where
  "checkPackageName env c file filePath =
     (let rule = PackageName (NamingConfig.Rules (Naming (config c)));
          pkgName = Ident.Name (File.Name file)
      in case regexp_Compile env (PatternRule.Pattern rule) of
           None \<Rightarrow> c
         | Some pattern \<Rightarrow>
             if \<not> pattern pkgName
             then
               (let pos = NamePos (File.Name file)
                in addViolation c
                  \<lparr>File = filePath, Line = Position.Line pos, Column = Position.Column pos,
                   Rule = ''package_name'', Category = ''naming'',
                   Severity = ParseSeverity (BaseRule.Severity rule),
                   Message = Sprintf_package_name (BaseRule.Message rule) pkgName,
                   Suggestion = [],
                   Code = getCodeLine c filePath (Position.Line pos)\<rparr>)
             else c)"

subsection \<open>Functions\<close>

fun checkNestingLevel :: "Stmt list option \<Rightarrow> int \<Rightarrow> int"
  and nesting_loop :: "Stmt list \<Rightarrow> int \<Rightarrow> int \<Rightarrow> int"
  and nesting_stmt :: "Stmt \<Rightarrow> int \<Rightarrow> int \<Rightarrow> int"
where
  "checkNestingLevel None currentLevel = currentLevel"
| "checkNestingLevel (Some block) currentLevel = nesting_loop block currentLevel currentLevel"
| "nesting_loop [] currentLevel maxLevel = maxLevel"
| "nesting_loop (stmt # rest) currentLevel maxLevel =
     nesting_loop rest currentLevel (nesting_stmt stmt currentLevel maxLevel)"
| "nesting_stmt (IfStmt body els) currentLevel maxLevel =
     (let level = checkNestingLevel body (currentLevel + 1);
          maxLevel1 = (if level > maxLevel then level else maxLevel)
      in case els of
           Some (BlockStmt elseBlock) \<Rightarrow>
             (let level2 = checkNestingLevel (Some elseBlock) (currentLevel + 1)
              in if level2 > maxLevel1 then level2 else maxLevel1)
         | _ \<Rightarrow> maxLevel1)"
| "nesting_stmt (ForStmt body) currentLevel maxLevel =
     (let level = checkNestingLevel body (currentLevel + 1)
      in if level > maxLevel then level else maxLevel)"
| "nesting_stmt (RangeStmt body) currentLevel maxLevel =
     (let level = checkNestingLevel body (currentLevel + 1)
      in if level > maxLevel then level else maxLevel)"
| "nesting_stmt (SwitchStmt body) currentLevel maxLevel =
     (let level = checkNestingLevel body (currentLevel + 1)
      in if level > maxLevel then level else maxLevel)"
| "nesting_stmt (SelectStmt body) currentLevel maxLevel =
     (let level = checkNestingLevel body (currentLevel + 1)
      in if level > maxLevel then level else maxLevel)"
| "nesting_stmt _ currentLevel maxLevel = maxLevel"

text \<open>The five checks of \<open>checkFunction\<close>, one definition each, in the order of the source.\<close>

definition checkFunction_name :: "Env \<Rightarrow> Checker \<Rightarrow> FuncDecl \<Rightarrow> string \<Rightarrow> Checker" where
  "checkFunction_name env c fn filePath =
     (let pos = FuncDecl.Pos fn; funcName = Ident.Name (FuncDecl.Name fn)
      in if NamingConfig.Enabled (Naming (config c)) \<and>
            BaseRule.Enabled (ExportedNames (NamingConfig.Rules (Naming (config c))))
         then
           if ast_IsExported env funcName
           then
             if \<not> isPascalCase funcName
             then addViolation c
               \<lparr>File = filePath, Line = Position.Line pos, Column = Position.Column pos,
                Rule = ''exported_name'', Category = ''naming'',
                Severity = ParseSeverity
                  (BaseRule.Severity (ExportedNames (NamingConfig.Rules (Naming (config c))))),
                Message = Sprintf_exported_name funcName,
                Suggestion = [],
                Code = getCodeLine c filePath (Position.Line pos)\<rparr>
             else c
           else c
         else c)"

definition checkFunction_lines :: "Checker \<Rightarrow> FuncDecl \<Rightarrow> string \<Rightarrow> Checker" where
  "checkFunction_lines c fn filePath =
     (let pos = FuncDecl.Pos fn; endPos = FuncDecl.End fn;
          funcName = Ident.Name (FuncDecl.Name fn)
      in if StructureConfig.Enabled (Structure (config c)) \<and>
            BaseRule.Enabled (MaxFunctionLines (StructureConfig.Rules (Structure (config c))))
         then
           (let lineCount = Position.Line endPos - Position.Line pos;
                limit = Limit (MaxFunctionLines (StructureConfig.Rules (Structure (config c))))
            in if lineCount > limit
               then addViolation c
                 \<lparr>File = filePath, Line = Position.Line pos, Column = 0,
                  Rule = ''max_function_lines'', Category = ''structure'',
                  Severity = ParseSeverity (BaseRule.Severity
                    (MaxFunctionLines (StructureConfig.Rules (Structure (config c))))),
                  Message = Sprintf_max_function_lines funcName lineCount limit,
                  Suggestion = Suggestion_max_function_lines,
                  Code = getCodeLine c filePath (Position.Line pos)\<rparr>
               else c)
         else c)"

definition checkFunction_params :: "Checker \<Rightarrow> FuncDecl \<Rightarrow> string \<Rightarrow> Checker" where
  "checkFunction_params c fn filePath =
     (let pos = FuncDecl.Pos fn; funcName = Ident.Name (FuncDecl.Name fn)
      in if StructureConfig.Enabled (Structure (config c)) \<and>
            BaseRule.Enabled (MaxParameters (StructureConfig.Rules (Structure (config c))))
         then
           (case Params fn of
              None \<Rightarrow> c
            | Some params \<Rightarrow>
                (let paramCount = int (length params);
                     limit = Limit (MaxParameters (StructureConfig.Rules (Structure (config c))))
                 in if paramCount > limit
                    then addViolation c
                      \<lparr>File = filePath, Line = Position.Line pos, Column = 0,
                       Rule = ''max_parameters'', Category = ''structure'',
                       Severity = ParseSeverity (BaseRule.Severity
                         (MaxParameters (StructureConfig.Rules (Structure (config c))))),
                       Message = Sprintf_max_parameters funcName paramCount limit,
                       Suggestion = Suggestion_max_parameters,
                       Code = getCodeLine c filePath (Position.Line pos)\<rparr>
                    else c))
         else c)"

definition checkFunction_results :: "Checker \<Rightarrow> FuncDecl \<Rightarrow> string \<Rightarrow> Checker" where
  "checkFunction_results c fn filePath =
     (let pos = FuncDecl.Pos fn; funcName = Ident.Name (FuncDecl.Name fn)
      in if StructureConfig.Enabled (Structure (config c)) \<and>
            BaseRule.Enabled (MaxReturnValues (StructureConfig.Rules (Structure (config c))))
         then
           (case Results fn of
              None \<Rightarrow> c
            | Some results \<Rightarrow>
                (let resultCount = int (length results);
                     limit = Limit (MaxReturnValues (StructureConfig.Rules (Structure (config c))))
                 in if resultCount > limit
                    then addViolation c
                      \<lparr>File = filePath, Line = Position.Line pos, Column = 0,
                       Rule = ''max_return_values'', Category = ''structure'',
                       Severity = ParseSeverity (BaseRule.Severity
                         (MaxReturnValues (StructureConfig.Rules (Structure (config c))))),
                       Message = Sprintf_max_return_values funcName resultCount limit,
                       Suggestion = Suggestion_max_return_values,
                       Code = getCodeLine c filePath (Position.Line pos)\<rparr>
                    else c))
         else c)"

definition checkFunction_nesting :: "Checker \<Rightarrow> FuncDecl \<Rightarrow> string \<Rightarrow> Checker" where
  "checkFunction_nesting c fn filePath =
     (let pos = FuncDecl.Pos fn; funcName = Ident.Name (FuncDecl.Name fn)
      in if StructureConfig.Enabled (Structure (config c)) \<and>
            BaseRule.Enabled (MaxNestingLevel (StructureConfig.Rules (Structure (config c))))
         then
           (let maxNest = checkNestingLevel (Body fn) 0;
                limit = Limit (MaxNestingLevel (StructureConfig.Rules (Structure (config c))))
            in if maxNest > limit
               then addViolation c
                 \<lparr>File = filePath, Line = Position.Line pos, Column = 0,
                  Rule = ''max_nesting_level'', Category = ''structure'',
                  Severity = ParseSeverity (BaseRule.Severity
                    (MaxNestingLevel (StructureConfig.Rules (Structure (config c))))),
                  Message = Sprintf_max_nesting_level funcName maxNest limit,
                  Suggestion = Suggestion_max_nesting_level,
                  Code = getCodeLine c filePath (Position.Line pos)\<rparr>
               else c)
         else c)"

definition checkFunction :: "Env \<Rightarrow> Checker \<Rightarrow> FuncDecl \<Rightarrow> string \<Rightarrow> Checker" where
  "checkFunction env c fn filePath =
     (let c1 = checkFunction_name env c fn filePath;
          c2 = checkFunction_lines c1 fn filePath;
          c3 = checkFunction_params c2 fn filePath;
          c4 = checkFunction_results c3 fn filePath
      in checkFunction_nesting c4 fn filePath)"

subsection \<open>Type declarations and struct tags\<close>

text \<open>
  \<open>checkJSONTag\<close> searches the tag with the fixed pattern \<open>json:"([^"]+)"\<close>, which
  compiles; \<open>find_json_tag\<close> is the first submatch of its leftmost match: the longest
  run of characters other than a double quote that follows \<open>json:"\<close>, where that run
  is not empty and a double quote ends it.
\<close>

fun find_json_tag :: "string \<Rightarrow> string option" where
  "find_json_tag [] = None"
| "find_json_tag (c # cs) =
     (if prefix (''json:'' @ [CHR 0x22]) (c # cs) \<and>
         takeWhile (\<lambda>d. d \<noteq> CHR 0x22) (drop 6 (c # cs)) \<noteq> [] \<and>
         dropWhile (\<lambda>d. d \<noteq> CHR 0x22) (drop 6 (c # cs)) \<noteq> []
      then Some (takeWhile (\<lambda>d. d \<noteq> CHR 0x22) (drop 6 (c # cs)))
      else find_json_tag cs)"

definition checkJSONTag ::
  "Env \<Rightarrow> Checker \<Rightarrow> string \<Rightarrow> string \<Rightarrow> string \<Rightarrow> Position \<Rightarrow> Checker" where
  "checkJSONTag env c tagValue structName filePath pos =
     (let rule = JSONTag (StructTagsConfig.Rules (StructTags (config c)))
      in case find_json_tag tagValue of
           None \<Rightarrow> c
         | Some m \<Rightarrow>
             (let jsonName = takeWhile (\<lambda>d. d \<noteq> CHR '','') m
              in if jsonName = ''-'' \<or> jsonName = [] then c
                 else
                   (let isValid =
                          (if Style rule = ''snake_case'' then isSnakeCase jsonName
                           else if Style rule = ''camelCase'' then isCamelCase jsonName
                           else True)
                    in if \<not> isValid
                       then addViolation c
                         \<lparr>File = filePath, Line = Position.Line pos,
                          Column = Position.Column pos,
                          Rule = ''json_tag'', Category = ''struct_tags'',
                          Severity = ParseSeverity (BaseRule.Severity rule),
                          Message = Sprintf_json_tag jsonName (Style rule),
                          Suggestion = Sprintf_json_suggestion (toSnakeCase env jsonName),
                          Code = getCodeLine c filePath (Position.Line pos)\<rparr>
                       else c)))"

definition checkValidationTag ::
  "Env \<Rightarrow> Checker \<Rightarrow> string \<Rightarrow> string \<Rightarrow> string \<Rightarrow> Position \<Rightarrow> Checker" where
  "checkValidationTag env c tagValue structName filePath pos =
     (let rule = ValidationTag (StructTagsConfig.Rules (StructTags (config c)));
          isTarget = list_ex (\<lambda>pattern. filepath_Match env pattern structName) (RequiredFor rule)
      in if \<not> isTarget then c
         else if \<not> sublist (''validate:'' @ [CHR 0x22]) tagValue
         then addViolation c
           \<lparr>File = filePath, Line = Position.Line pos, Column = Position.Column pos,
            Rule = ''validation_tag'', Category = ''struct_tags'',
            Severity = ParseSeverity (BaseRule.Severity rule),
            Message = BaseRule.Message rule,
            Suggestion = [],
            Code = getCodeLine c filePath (Position.Line pos)\<rparr>
         else c)"

definition checkStructTags_field ::
  "Env \<Rightarrow> string \<Rightarrow> string \<Rightarrow> Checker \<Rightarrow> Field \<Rightarrow> Checker" where
  "checkStructTags_field env structName filePath c field =
     (case Tag field of
        None \<Rightarrow> c
      | Some tagValue \<Rightarrow>
          (let pos = Field.Pos field;
               c1 = (if BaseRule.Enabled (JSONTag (StructTagsConfig.Rules (StructTags (config c))))
                     then checkJSONTag env c tagValue structName filePath pos else c)
           in if BaseRule.Enabled (ValidationTag (StructTagsConfig.Rules (StructTags (config c1))))
              then checkValidationTag env c1 tagValue structName filePath pos else c1))"

definition checkStructTags ::
  "Env \<Rightarrow> Checker \<Rightarrow> Field list option \<Rightarrow> string \<Rightarrow> string \<Rightarrow> Checker" where
  "checkStructTags env c fieldList structName filePath =
     (case fieldList of
        None \<Rightarrow> c
      | Some fs \<Rightarrow> foldl (checkStructTags_field env structName filePath) c fs)"

definition checkTypeSpec :: "Env \<Rightarrow> Checker \<Rightarrow> TypeSpec \<Rightarrow> string \<Rightarrow> Checker" where
  "checkTypeSpec env c ts filePath =
     (let pos = TypeSpec.Pos ts; typeName = Ident.Name (TypeSpec.Name ts);
          c1 = (case Type ts of
                  InterfaceType \<Rightarrow>
                    if NamingConfig.Enabled (Naming (config c)) \<and>
                       BaseRule.Enabled (InterfaceName (NamingConfig.Rules (Naming (config c))))
                    then
                      (let rule = InterfaceName (NamingConfig.Rules (Naming (config c)));
                           validSuffix = list_ex (\<lambda>sfx. suffix sfx typeName) (Suffixes rule)
                       in if \<not> validSuffix \<and> ast_IsExported env typeName
                          then addViolation c
                            \<lparr>File = filePath, Line = Position.Line pos,
                             Column = Position.Column pos,
                             Rule = ''interface_name'', Category = ''naming'',
                             Severity = ParseSeverity (BaseRule.Severity rule),
                             Message = Sprintf_interface_name typeName (Suffixes rule),
                             Suggestion = [],
                             Code = getCodeLine c filePath (Position.Line pos)\<rparr>
                          else c)
                    else c
                | _ \<Rightarrow> c)
      in case Type ts of
           StructType fieldList \<Rightarrow>
             if StructTagsConfig.Enabled (StructTags (config c1))
             then checkStructTags env c1 fieldList typeName filePath else c1
         | _ \<Rightarrow> c1)"

subsection \<open>Variable declarations\<close>

definition checkErrorVarName :: "Env \<Rightarrow> Checker \<Rightarrow> Ident \<Rightarrow> string \<Rightarrow> Checker" where
  "checkErrorVarName env c name filePath =
     (let rule = ErrorVar (NamingConfig.Rules (Naming (config c)));
          pos = NamePos name
      in if \<not> ast_IsExported env (Ident.Name name) then c
         else
           case regexp_Compile env (PatternRule.Pattern rule) of
             None \<Rightarrow> c
           | Some pattern \<Rightarrow>
               if \<not> pattern (Ident.Name name)
               then addViolation c
                 \<lparr>File = filePath, Line = Position.Line pos, Column = Position.Column pos,
                  Rule = ''error_var'', Category = ''naming'',
                  Severity = ParseSeverity (BaseRule.Severity rule),
                  Message = Sprintf_error_var (Ident.Name name),
                  Suggestion = ''Err'' @ strings_TrimPrefix (Ident.Name name) ''err'',
                  Code = getCodeLine c filePath (Position.Line pos)\<rparr>
               else c)"

definition checkGenDecl_name ::
  "Env \<Rightarrow> Expr option \<Rightarrow> string \<Rightarrow> Checker \<Rightarrow> Ident \<Rightarrow> Checker" where
  "checkGenDecl_name env vsType filePath c name =
     (if NamingConfig.Enabled (Naming (config c)) \<and>
         BaseRule.Enabled (ErrorVar (NamingConfig.Rules (Naming (config c))))
      then
        (case vsType of
           Some (IdentExpr ident) \<Rightarrow>
             if Ident.Name ident = ''error'' then checkErrorVarName env c name filePath else c
         | _ \<Rightarrow> c)
      else c)"

definition checkGenDecl_spec :: "Env \<Rightarrow> string \<Rightarrow> Checker \<Rightarrow> Spec \<Rightarrow> Checker" where
  "checkGenDecl_spec env filePath c spec =
     (case spec of
        ValueSpec names vsType \<Rightarrow> foldl (checkGenDecl_name env vsType filePath) c names
      | OtherSpec \<Rightarrow> c)"

definition checkGenDecl :: "Env \<Rightarrow> Checker \<Rightarrow> GenDecl \<Rightarrow> string \<Rightarrow> Checker" where
  "checkGenDecl env c gd filePath =
     (if Tok gd \<noteq> VAR then c
      else foldl (checkGenDecl_spec env filePath) c (Specs gd))"

subsection \<open>Assignments and calls\<close>

definition getCallExprString :: "Expr \<Rightarrow> string" where
  "getCallExprString fn =
     (case fn of
        IdentExpr i \<Rightarrow> Ident.Name i
      | SelectorExpr x sel \<Rightarrow>
          (case x of
             IdentExpr xi \<Rightarrow> Ident.Name xi @ ''.'' @ Ident.Name sel
           | _ \<Rightarrow> [])
      | _ \<Rightarrow> [])"

text \<open>The loop of \<open>checkAssignment\<close> over the left-hand sides; \<open>i\<close> is the index.\<close>

fun checkAssignment_loop ::
  "Env \<Rightarrow> Checker \<Rightarrow> AssignStmt \<Rightarrow> string \<Rightarrow> nat \<Rightarrow> Expr list \<Rightarrow> Checker" where
  "checkAssignment_loop env c as filePath i [] = c"
| "checkAssignment_loop env c as filePath i (lhs # rest) =
     checkAssignment_loop env
       (case lhs of
          IdentExpr ident \<Rightarrow>
            if Ident.Name ident \<noteq> ''_'' then c
            else if i < length (Rhs as)
            then
              (case Rhs as ! i of
                 CallExpr callPos callFun \<Rightarrow>
                   (let callStr = getCallExprString callFun;
                        rule = NoIgnoredErrors
                          (ErrorHandlingConfig.Rules (ErrorHandling (config c)));
                        allowed = list_ex (\<lambda>pattern. regexp_MatchString env pattern callStr)
                          (AllowedPatterns rule)
                    in if \<not> allowed
                       then
                         (let pos = AssignStmt.Pos as
                          in addViolation c
                            \<lparr>File = filePath, Line = Position.Line pos,
                             Column = Position.Column pos,
                             Rule = ''no_ignored_errors'', Category = ''error_handling'',
                             Severity = ParseSeverity (BaseRule.Severity rule),
                             Message = BaseRule.Message rule,
                             Suggestion = Suggestion_no_ignored_errors,
                             Code = getCodeLine c filePath (Position.Line pos)\<rparr>)
                       else c)
               | _ \<Rightarrow> c)
            else c
        | _ \<Rightarrow> c)
       as filePath (i + 1) rest"

definition checkAssignment :: "Env \<Rightarrow> Checker \<Rightarrow> AssignStmt \<Rightarrow> string \<Rightarrow> Checker" where
  "checkAssignment env c as filePath =
     (if \<not> ErrorHandlingConfig.Enabled (ErrorHandling (config c)) \<or>
         \<not> BaseRule.Enabled (NoIgnoredErrors (ErrorHandlingConfig.Rules (ErrorHandling (config c))))
      then c
      else checkAssignment_loop env c as filePath 0 (Lhs as))"

definition checkCallExpr :: "Env \<Rightarrow> Checker \<Rightarrow> Position \<Rightarrow> Expr \<Rightarrow> string \<Rightarrow> Checker" where
  "checkCallExpr env c pos callFun filePath =
     (let callStr = getCallExprString callFun;
          c1 = (if ErrorHandlingConfig.Enabled (ErrorHandling (config c)) \<and>
                   BaseRule.Enabled (NoPanic (ErrorHandlingConfig.Rules (ErrorHandling (config c))))
                then
                  if callStr = ''panic''
                  then
                    (let rule = NoPanic (ErrorHandlingConfig.Rules (ErrorHandling (config c)));
                         allowed = list_ex
                           (\<lambda>pattern. filepath_Match env pattern (filepath_Base env filePath))
                           (AllowedIn rule)
                     in if \<not> allowed
                        then addViolation c
                          \<lparr>File = filePath, Line = Position.Line pos, Column = 0,
                           Rule = ''no_panic'', Category = ''error_handling'',
                           Severity = ParseSeverity (BaseRule.Severity rule),
                           Message = BaseRule.Message rule,
                           Suggestion = Suggestion_no_panic,
                           Code = getCodeLine c filePath (Position.Line pos)\<rparr>
                        else c)
                  else c
                else c)
      in if LoggingConfig.Enabled (Logging (config c1)) \<and>
            BaseRule.Enabled (NoFmtPrintln (LoggingConfig.Rules (Logging (config c1))))
         then
           if prefix ''fmt.Print'' callStr
           then
             (let rule = NoFmtPrintln (LoggingConfig.Rules (Logging (config c1)))
              in addViolation c1
                \<lparr>File = filePath, Line = Position.Line pos, Column = 0,
                 Rule = ''no_fmt_println'', Category = ''logging'',
                 Severity = ParseSeverity (BaseRule.Severity rule),
                 Message = BaseRule.Message rule,
                 Suggestion = Suggestion_no_fmt_println,
                 Code = getCodeLine c1 filePath (Position.Line pos)\<rparr>)
           else c1
         else c1)"

subsection \<open>Directory layout\<close>

definition checkDirectory_required :: "Env \<Rightarrow> string \<Rightarrow> Checker \<Rightarrow> string \<Rightarrow> Checker" where
  "checkDirectory_required env targetDir c dir =
     (let rule = RequiredDirs (DirectoryConfig.Rules (Directory (config c)));
          path = filepath_Join env targetDir dir
      in if os_Stat_IsNotExist env path
         then addViolation c
           \<lparr>File = targetDir, Line = 1, Column = 0,
            Rule = ''required_dirs'', Category = ''directory'',
            Severity = ParseSeverity (BaseRule.Severity rule),
            Message = Sprintf_required_dirs dir,
            Suggestion = ''mkdir -p '' @ path,
            Code = []\<rparr>
         else c)"

definition checkDirectory_recommended :: "Env \<Rightarrow> string \<Rightarrow> Checker \<Rightarrow> string \<Rightarrow> Checker" where
  "checkDirectory_recommended env targetDir c dir =
     (let rule = RecommendedDirs (DirectoryConfig.Rules (Directory (config c)));
          path = filepath_Join env targetDir dir
      in if os_Stat_IsNotExist env path
         then addViolation c
           \<lparr>File = targetDir, Line = 1, Column = 0,
            Rule = ''recommended_dirs'', Category = ''directory'',
            Severity = ParseSeverity (BaseRule.Severity rule),
            Message = Sprintf_recommended_dirs dir,
            Suggestion = [],
            Code = []\<rparr>
         else c)"

definition checkDirectory :: "Env \<Rightarrow> Checker \<Rightarrow> string \<Rightarrow> Checker" where
  "checkDirectory env c targetDir =
     (let c1 = (if BaseRule.Enabled (RequiredDirs (DirectoryConfig.Rules (Directory (config c))))
                then foldl (checkDirectory_required env targetDir) c
                       (Dirs (RequiredDirs (DirectoryConfig.Rules (Directory (config c)))))
                else c)
      in if BaseRule.Enabled (RecommendedDirs (DirectoryConfig.Rules (Directory (config c1))))
         then foldl (checkDirectory_recommended env targetDir) c1
                (Dirs (RecommendedDirs (DirectoryConfig.Rules (Directory (config c1)))))
         else c1)"

subsection \<open>Custom rules\<close>

text \<open>The loop over the lines of a file for one custom rule; \<open>i\<close> is the index.\<close>

fun checkCustomRules_lines ::
  "Env \<Rightarrow> CustomRule \<Rightarrow> (string \<Rightarrow> bool) \<Rightarrow> string \<Rightarrow> Checker \<Rightarrow> nat \<Rightarrow> string list \<Rightarrow> Checker"
where
  "checkCustomRules_lines env rule pattern filePath c i [] = c"
| "checkCustomRules_lines env rule pattern filePath c i (line # rest) =
     checkCustomRules_lines env rule pattern filePath
       (if pattern line
        then addViolation c
          \<lparr>File = filePath, Line = int i + 1, Column = 0,
           Rule = CustomRule.Name rule, Category = ''custom'',
           Severity = ParseSeverity (CustomRule.Severity rule),
           Message = CustomRule.Message rule,
           Suggestion = [],
           Code = strings_TrimSpace env line\<rparr>
        else c)
       (i + 1) rest"

definition checkCustomRules_rule :: "Env \<Rightarrow> string \<Rightarrow> Checker \<Rightarrow> CustomRule \<Rightarrow> Checker" where
  "checkCustomRules_rule env filePath c rule =
     (if \<not> CustomRule.Enabled rule then c
      else if list_ex (\<lambda>pattern. filepath_Match env pattern (filepath_Base env filePath))
                (ExcludeFiles rule)
      then c
      else
        case regexp_Compile env (CustomRule.Pattern rule) of
          None \<Rightarrow> c
        | Some pattern \<Rightarrow>
            checkCustomRules_lines env rule pattern filePath c 0
              (case fileMap c filePath of None \<Rightarrow> [] | Some lines \<Rightarrow> lines))"

definition checkCustomRules :: "Env \<Rightarrow> Checker \<Rightarrow> string \<Rightarrow> Checker" where
  "checkCustomRules env c filePath =
     foldl (checkCustomRules_rule env filePath) c (CustomRules (config c))"

subsection \<open>Files and the whole scan\<close>

definition inspect_node :: "Env \<Rightarrow> string \<Rightarrow> Checker \<Rightarrow> Node \<Rightarrow> Checker" where
  "inspect_node env filePath c n =
     (case n of
        FuncDeclNode node \<Rightarrow> checkFunction env c node filePath
      | GenDeclNode node \<Rightarrow> checkGenDecl env c node filePath
      | TypeSpecNode node \<Rightarrow> checkTypeSpec env c node filePath
      | AssignStmtNode node \<Rightarrow> checkAssignment env c node filePath
      | CallExprNode pos callFun \<Rightarrow> checkCallExpr env c pos callFun filePath
      | OtherNode \<Rightarrow> c)"

text \<open>\<open>checkFile\<close> returns its error (\<open>None\<close> for \<open>nil\<close>) and the updated state.\<close>

definition checkFile :: "Env \<Rightarrow> Checker \<Rightarrow> string \<Rightarrow> string option \<times> Checker" where
  "checkFile env c filePath =
     (case readFileLines env filePath of
        Inl err \<Rightarrow> (Some err, c)
      | Inr lines \<Rightarrow>
          (let c1 = c\<lparr>fileMap := (fileMap c)(filePath \<mapsto> lines)\<rparr>
           in case parser_ParseFile env filePath of
                Inl err \<Rightarrow> (Some (''parse error: '' @ err), c1)
              | Inr file \<Rightarrow>
                  (let c2 = (if NamingConfig.Enabled (Naming (config c1)) \<and>
                                BaseRule.Enabled (FileName (NamingConfig.Rules (Naming (config c1))))
                             then checkFileName env c1 filePath else c1);
                       c3 = (if NamingConfig.Enabled (Naming (config c2)) \<and>
                                BaseRule.Enabled (PackageName (NamingConfig.Rules (Naming (config c2))))
                             then checkPackageName env c2 file filePath else c2)
                   in (None, foldl (inspect_node env filePath) c3 (Nodes file)))))"

text \<open>The first loop of \<open>Check\<close>: a failing file prints a warning and the loop goes on.\<close>

definition Check_file :: "Env \<Rightarrow> Checker \<Rightarrow> string \<Rightarrow> Checker" where
  "Check_file env c filePath =
     (case checkFile env c filePath of
        (None, c') \<Rightarrow> c'
      | (Some err, c') \<Rightarrow>
          c'\<lparr>stdout := stdout c' @
            [''Warning: failed to check '' @ filePath @ '': '' @ err @ [CHR 0x0A]]\<rparr>)"

text \<open>\<open>Check\<close> returns the report or the error, and the updated state.\<close>

definition Check :: "Env \<Rightarrow> Checker \<Rightarrow> string \<Rightarrow> (string + Report) \<times> Checker" where
  "Check env c targetDir =
     (let c1 = c\<lparr>report := NewReport targetDir\<rparr>;
          c2 = (if DirectoryConfig.Enabled (Directory (config c1))
                then checkDirectory env c1 targetDir else c1)
      in case collectGoFiles env targetDir of
           Inl err \<Rightarrow> (Inl (''failed to collect Go files: '' @ err), c2)
         | Inr goFiles \<Rightarrow>
             (let c3 = c2\<lparr>report := (report c2)\<lparr>TotalFiles := int (length goFiles)\<rparr>\<rparr>;
                  c4 = foldl (Check_file env) c3 goFiles;
                  c5 = foldl (checkCustomRules env) c4 goFiles;
                  c6 = c5\<lparr>report := Finalize (sort_Slice env) (report c5)\<rparr>
              in (Inr (report c6), c6)))"

section \<open>Vocabulary of the properties\<close>

text \<open>The sort key that \<open>less_violation\<close> compares: severity level downwards, then file, then line.\<close>

definition vkey :: "Violation \<Rightarrow> int \<times> string \<times> int" where
  "vkey v = (- Level (Severity v), File v, Line v)"

text \<open>The number of violations whose field \<open>f\<close> is \<open>k\<close>.\<close>

definition count_by :: "(Violation \<Rightarrow> string) \<Rightarrow> string \<Rightarrow> Violation list \<Rightarrow> int" where
  "count_by f k vs = int (length (filter (\<lambda>v. f v = k) vs))"

text \<open>What the counting loop makes of a map \<open>m\<close>: every key met is raised by its count.\<close>

definition tally ::
  "(string \<rightharpoonup> int) \<Rightarrow> (Violation \<Rightarrow> string) \<Rightarrow> Violation list \<Rightarrow> (string \<rightharpoonup> int)" where
  "tally m f vs =
     (\<lambda>k. if count_by f k vs = 0 then m k
          else Some ((case m k of None \<Rightarrow> 0 | Some c \<Rightarrow> c) + count_by f k vs))"

text \<open>The counts recomputed from a violation list alone: a key is present when it occurs.\<close>

definition counts_of :: "(Violation \<Rightarrow> string) \<Rightarrow> Violation list \<Rightarrow> (string \<rightharpoonup> int)" where
  "counts_of f vs = (\<lambda>k. if count_by f k vs = 0 then None else Some (count_by f k vs))"

text \<open>The sum of a Go map of counters over all its keys.\<close>

definition sum_counts :: "(string \<rightharpoonup> int) \<Rightarrow> int" where
  "sum_counts m = (\<Sum>k\<in>dom m. the (m k))"

text \<open>The findings a step has appended to the report: those of \<open>c'\<close> beyond those of \<open>c\<close>.\<close>

definition added :: "Checker \<Rightarrow> Checker \<Rightarrow> Violation list" where
  "added c c' = drop (length (Violations (report c))) (Violations (report c'))"

definition findings_of :: "string \<Rightarrow> Violation list \<Rightarrow> Violation list" where
  "findings_of rule vs = filter (\<lambda>v. Rule v = rule) vs"

text \<open>
  Facts of Go's \<open>unicode/utf8\<close> and \<open>unicode\<close> packages on ASCII: a byte below 128
  decodes to itself with width 1, the empty string decodes to the error rune U+FFFD
  with width 0, an ASCII rune is upper case exactly from \<open>A\<close> to \<open>Z\<close>, and the error
  rune is not upper case.
\<close>

definition unicode_ascii_ok :: "Env \<Rightarrow> bool" where
  "unicode_ascii_ok env \<longleftrightarrow>
     (\<forall>ch s. of_char ch < (128::nat) \<longrightarrow>
        utf8_DecodeRuneInString env (ch # s) = (of_char ch, 1)) \<and>
     (\<forall>r<128. unicode_IsUpper env r \<longleftrightarrow> 65 \<le> r \<and> r \<le> 90) \<and>
     utf8_DecodeRuneInString env [] = (65533, 0) \<and>
     \<not> unicode_IsUpper env 65533"

text \<open>
  The number of parameters (or results) a field list declares, as \<open>NumFields\<close> of
  \<open>go/ast\<close> counts them: every name of a field, and one for a field without names.
\<close>

definition NumFields :: "Field list \<Rightarrow> nat" where
  "NumFields fs = sum_list (map (\<lambda>f. if Names f = [] then 1 else length (Names f)) fs)"




text \<open>The finding of a custom rule for the line with index \<open>i\<close>.\<close>

definition custom_finding :: "Env \<Rightarrow> CustomRule \<Rightarrow> string \<Rightarrow> nat \<Rightarrow> string \<Rightarrow> Violation" where
  "custom_finding env rule filePath i line =
     \<lparr>File = filePath, Line = int i + 1, Column = 0, Rule = CustomRule.Name rule,
      Category = ''custom'', Severity = ParseSeverity (CustomRule.Severity rule),
      Message = CustomRule.Message rule, Suggestion = [],
      Code = strings_TrimSpace env line\<rparr>"

text \<open>The lines a custom rule sees for a file: those cached in \<open>fileMap\<close>, if any.\<close>

definition cached_lines :: "Checker \<Rightarrow> string \<Rightarrow> string list" where
  "cached_lines c filePath = (case fileMap c filePath of None \<Rightarrow> [] | Some ls \<Rightarrow> ls)"

section \<open>Example data\<close>

definition vA :: Violation where
  "vA = \<lparr>File = ''a.go'', Line = 3, Column = 1, Rule = ''exported_name'',
         Category = ''naming'', Severity = ''error'', Message = ''m'', Suggestion = [],
         Code = []\<rparr>"

definition vB :: Violation where
  "vB = \<lparr>File = ''a.go'', Line = 3, Column = 1, Rule = ''max_parameters'',
         Category = ''structure'', Severity = ''error'', Message = ''m'', Suggestion = [],
         Code = []\<rparr>"

definition vC :: Violation where
  "vC = \<lparr>File = ''b.go'', Line = 1, Column = 0, Rule = ''file_name'',
         Category = ''naming'', Severity = ''warning'', Message = ''m'', Suggestion = [],
         Code = []\<rparr>"

text \<open>
  An example environment. Each library function is a fragment that agrees with Go's
  library on the inputs of the examples: UTF-8 decoding of one- and two-byte sequences,
  upper case in ASCII and Latin-1, patterns made of letters, digits, spaces and
  underscores (which match as substrings) with every other pattern taken as malformed,
  as \<open>(\<close> is, globs without metacharacters, and paths without a trailing separator.
\<close>

definition decode_ex :: "string \<Rightarrow> nat \<times> nat" where
  "decode_ex s =
     (case s of
        [] \<Rightarrow> (65533, 0)
      | c # cs \<Rightarrow>
          if of_char c < (128::nat) then (of_char c, 1)
          else
            (case cs of
               [] \<Rightarrow> (65533, 1)
             | d # ds \<Rightarrow>
                 if 194 \<le> (of_char c :: nat) \<and> (of_char c :: nat) \<le> 223 \<and>
                    128 \<le> (of_char d :: nat) \<and> (of_char d :: nat) \<le> 191
                 then ((of_char c - 192) * 64 + (of_char d - 128), 2)
                 else (65533, 1)))"

definition IsUpper_ex :: "nat \<Rightarrow> bool" where
  "IsUpper_ex r \<longleftrightarrow> (65 \<le> r \<and> r \<le> 90) \<or> (192 \<le> r \<and> r \<le> 222 \<and> r \<noteq> 215)"

definition AppendRune_ex :: "nat \<Rightarrow> string" where
  "AppendRune_ex r =
     (if r < 128 then [char_of r]
      else if r < 2048 then [char_of (192 + r div 64), char_of (128 + r mod 64)]
      else [CHR 0xEF, CHR 0xBF, CHR 0xBD])"

definition ToLower_ex :: "string \<Rightarrow> string" where
  "ToLower_ex s =
     map (\<lambda>c. if CHR ''A'' \<le> c \<and> c \<le> CHR ''Z'' then char_of (of_char c + (32::nat)) else c) s"

definition TrimSpace_ex :: "string \<Rightarrow> string" where
  "TrimSpace_ex s =
     rev (dropWhile (\<lambda>c. c = CHR '' '') (rev (dropWhile (\<lambda>c. c = CHR '' '') s)))"

definition Base_ex :: "string \<Rightarrow> string" where
  "Base_ex p = rev (takeWhile (\<lambda>c. c \<noteq> CHR ''/'') (rev p))"

definition literal_char :: "char \<Rightarrow> bool" where
  "literal_char c \<longleftrightarrow>
     (CHR ''a'' \<le> c \<and> c \<le> CHR ''z'') \<or> (CHR ''A'' \<le> c \<and> c \<le> CHR ''Z'') \<or>
     (CHR ''0'' \<le> c \<and> c \<le> CHR ''9'') \<or> c = CHR '' '' \<or> c = CHR ''_''"

definition Compile_ex :: "string \<Rightarrow> (string \<Rightarrow> bool) option" where
  "Compile_ex p = (if list_all literal_char p then Some (\<lambda>s. sublist p s) else None)"

text \<open>
  Two files: \<open>a.go\<close>, which the parser rejects, and \<open>b.go\<close>, which holds a
  function \<open>Run\<close> on lines 3 to 8 and the assignment \<open>_ = f()\<close> on line 4.
\<close>

definition lines_a :: "string list" where
  "lines_a = [''package main'', ''  TODO TODO'', ''func'', ''  TODO'']"

definition lines_b :: "string list" where
  "lines_b = [''package main'', [], ''func Run(a int) {'', ''  _ = f()'', ''}'']"

definition ident :: "int \<Rightarrow> int \<Rightarrow> string \<Rightarrow> Ident" where
  "ident l col n = \<lparr>NamePos = \<lparr>Position.Line = l, Position.Column = col\<rparr>, Ident.Name = n\<rparr>"

definition func_ex :: "string \<Rightarrow> int \<Rightarrow> int \<Rightarrow> FuncDecl" where
  "func_ex n l e =
     \<lparr>FuncDecl.Pos = \<lparr>Position.Line = l, Position.Column = 1\<rparr>,
      FuncDecl.End = \<lparr>Position.Line = e, Position.Column = 2\<rparr>,
      FuncDecl.Name = ident l 6 n,
      Params = Some [\<lparr>Field.Pos = \<lparr>Position.Line = l, Position.Column = 10\<rparr>,
                     Names = [ident l 10 ''a''], Tag = None\<rparr>],
      Results = None,
      Body = Some [OtherStmt]\<rparr>"

text \<open>
  \<open>func f(a, b, c int) { }\<close>: one field that names three parameters;
  \<open>func h(a int) (x, y, z int) { }\<close>: one field that names three results. And two
  functions whose bodies nest three \<open>for\<close> loops under the second branch of an
  \<open>if\<close>, once as \<open>else if\<close> and once as a plain \<open>else\<close>.
\<close>

definition func_xyz :: FuncDecl where
  "func_xyz =
     (func_ex ''h'' 3 4)\<lparr>Results :=
        Some [\<lparr>Field.Pos = \<lparr>Position.Line = 3, Position.Column = 16\<rparr>,
               Names = [ident 3 16 ''x'', ident 3 19 ''y'', ident 3 22 ''z''], Tag = None\<rparr>]\<rparr>"

definition func_abc :: FuncDecl where
  "func_abc =
     (func_ex ''f'' 3 4)\<lparr>Params :=
        Some [\<lparr>Field.Pos = \<lparr>Position.Line = 3, Position.Column = 8\<rparr>,
               Names = [ident 3 8 ''a'', ident 3 11 ''b'', ident 3 14 ''c''], Tag = None\<rparr>]\<rparr>"

definition loops3 :: "Stmt list" where
  "loops3 = [ForStmt (Some [ForStmt (Some [ForStmt (Some [])])])]"

definition func_else_if :: FuncDecl where
  "func_else_if =
     (func_ex ''g'' 3 4)\<lparr>Body := Some [IfStmt (Some []) (Some (IfStmt (Some loops3) None))]\<rparr>"

definition func_else :: FuncDecl where
  "func_else =
     (func_ex ''g'' 3 4)\<lparr>Body := Some [IfStmt (Some []) (Some (BlockStmt loops3))]\<rparr>"

definition assign_ex :: AssignStmt where
  "assign_ex =
     \<lparr>AssignStmt.Pos = \<lparr>Position.Line = 4, Position.Column = 3\<rparr>,
      Lhs = [IdentExpr (ident 4 3 ''_'')],
      Rhs = [CallExpr \<lparr>Position.Line = 4, Position.Column = 7\<rparr> (IdentExpr (ident 4 7 ''f''))]\<rparr>"

definition file_b :: File where
  "file_b =
     \<lparr>File.Name = ident 1 9 ''main'',
      Nodes = [FuncDeclNode (func_ex ''Run'' 3 5), AssignStmtNode assign_ex,
               CallExprNode \<lparr>Position.Line = 4, Position.Column = 7\<rparr> (IdentExpr (ident 4 7 ''f''))]\<rparr>"

definition env_ex :: Env where
  "env_ex =
     \<lparr>sort_Slice = insertionSort_func,
      regexp_Compile = Compile_ex,
      filepath_Match = (\<lambda>p n. p = n),
      filepath_Base = Base_ex,
      filepath_Join = (\<lambda>a b. a @ ''/'' @ b),
      strings_TrimSpace = TrimSpace_ex,
      strings_ToLower = ToLower_ex,
      utf8_DecodeRuneInString = decode_ex,
      utf8_AppendRune = AppendRune_ex,
      unicode_IsUpper = IsUpper_ex,
      os_Stat_IsNotExist = (\<lambda>p. False),
      os_ScanLines = (\<lambda>p. if p = ''a.go'' then Inr lines_a
                          else if p = ''b.go'' then Inr lines_b
                          else Inl ''no such file or directory''),
      parser_ParseFile = (\<lambda>p. if p = ''b.go'' then Inr file_b
                              else Inl ''expected declaration''),
      collectGoFiles = (\<lambda>d. Inr [''a.go'', ''b.go''])\<rparr>"

text \<open>
  An example configuration: the exported-name rule, the four limit rules (5 lines,
  nesting 3, 2 parameters, 2 results), the ignored-error rule with the malformed
  allow pattern \<open>(\<close>, and one custom rule looking for \<open>TODO\<close>.
\<close>

definition base_rule :: "bool \<Rightarrow> string \<Rightarrow> BaseRule" where
  "base_rule on sev = \<lparr>BaseRule.Enabled = on, BaseRule.Severity = sev, BaseRule.Message = ''msg''\<rparr>"

definition pattern_rule :: "bool \<Rightarrow> string \<Rightarrow> PatternRule" where
  "pattern_rule on p =
     \<lparr>BaseRule.Enabled = on, BaseRule.Severity = ''error'', BaseRule.Message = ''msg'',
      PatternRule.Pattern = p\<rparr>"

definition limit_rule :: "int \<Rightarrow> LimitRule" where
  "limit_rule l =
     \<lparr>BaseRule.Enabled = True, BaseRule.Severity = ''warning'', BaseRule.Message = ''msg'',
      Limit = l\<rparr>"

definition todo_rule :: CustomRule where
  "todo_rule =
     \<lparr>CustomRule.Name = ''todo'', CustomRule.Enabled = True, CustomRule.Severity = ''warning'',
      CustomRule.Pattern = ''TODO'', CustomRule.Message = ''TODO found'', ExcludeFiles = []\<rparr>"

definition config_ex :: Config where
  "config_ex =
     \<lparr>Naming =
        \<lparr>NamingConfig.Enabled = True,
         NamingConfig.Rules =
           \<lparr>PackageName = pattern_rule False [], ExportedNames = base_rule True ''error'',
            FileName = pattern_rule False [],
            InterfaceName =
              \<lparr>BaseRule.Enabled = False, BaseRule.Severity = ''info'',
               BaseRule.Message = ''msg'', Suffixes = []\<rparr>,
            ErrorVar = pattern_rule False []\<rparr>\<rparr>,
      Structure =
        \<lparr>StructureConfig.Enabled = True,
         StructureConfig.Rules =
           \<lparr>MaxFunctionLines = limit_rule 5, MaxNestingLevel = limit_rule 3,
            MaxParameters = limit_rule 2, MaxReturnValues = limit_rule 2\<rparr>\<rparr>,
      ErrorHandling =
        \<lparr>ErrorHandlingConfig.Enabled = True,
         ErrorHandlingConfig.Rules =
           \<lparr>NoIgnoredErrors =
              \<lparr>BaseRule.Enabled = True, BaseRule.Severity = ''error'',
               BaseRule.Message = ''msg'', AllowedPatterns = [''('']\<rparr>,
            NoPanic =
              \<lparr>BaseRule.Enabled = False, BaseRule.Severity = ''error'',
               BaseRule.Message = ''msg'', AllowedIn = []\<rparr>\<rparr>\<rparr>,
      Logging =
        \<lparr>LoggingConfig.Enabled = False,
         LoggingConfig.Rules = \<lparr>NoFmtPrintln = base_rule False ''info''\<rparr>\<rparr>,
      Directory =
        \<lparr>DirectoryConfig.Enabled = False,
         DirectoryConfig.Rules =
           \<lparr>RequiredDirs =
              \<lparr>BaseRule.Enabled = False, BaseRule.Severity = ''info'',
               BaseRule.Message = ''msg'', Dirs = []\<rparr>,
            RecommendedDirs =
              \<lparr>BaseRule.Enabled = False, BaseRule.Severity = ''info'',
               BaseRule.Message = ''msg'', Dirs = []\<rparr>\<rparr>\<rparr>,
      StructTags =
        \<lparr>StructTagsConfig.Enabled = False,
         StructTagsConfig.Rules =
           \<lparr>JSONTag =
              \<lparr>BaseRule.Enabled = False, BaseRule.Severity = ''info'',
               BaseRule.Message = ''msg'', Style = ''snake_case''\<rparr>,
            ValidationTag =
              \<lparr>BaseRule.Enabled = False, BaseRule.Severity = ''info'',
               BaseRule.Message = ''msg'', RequiredFor = []\<rparr>\<rparr>\<rparr>,
      CustomRules = [todo_rule]\<rparr>"

text \<open>The state in which \<open>Check\<close> starts its checks on the directory \<open>.\<close>\<close>

definition checker_ex :: Checker where
  "checker_ex = (NewChecker config_ex)\<lparr>report := NewReport ''.''\<rparr>"

definition checker_a :: Checker where
  "checker_a = checker_ex\<lparr>fileMap := (fileMap checker_ex)(''a.go'' \<mapsto> lines_a)\<rparr>"

text \<open>The same environment with \<open>a.go\<close> as the only file of the directory.\<close>

definition env_one :: Env where
  "env_one = env_ex\<lparr>collectGoFiles := (\<lambda>d. Inr [''a.go''])\<rparr>"


text \<open>
  Thirteen findings of one severity in one file: twelve on line 2, told apart by their
  column, and a last one on line 1.
\<close>

definition tied :: "int \<Rightarrow> Violation" where
  "tied k = \<lparr>File = ''a.go'', Line = 2, Column = k, Rule = ''todo'', Category = ''custom'',
             Severity = ''warning'', Message = ''m'', Suggestion = [], Code = []\<rparr>"

definition early :: Violation where
  "early = \<lparr>File = ''a.go'', Line = 1, Column = 12, Rule = ''todo'', Category = ''custom'',
            Severity = ''warning'', Message = ''m'', Suggestion = [], Code = []\<rparr>"

definition findings13 :: "Violation list" where
  "findings13 =
     [tied 0, tied 1, tied 2, tied 3, tied 4, tied 5, tied 6, tied 7, tied 8, tied 9, tied 10,
      tied 11, early]"

section \<open>The report: ordering, counting and filtering\<close>

subsection \<open>The comparison and insertion sort\<close>

lemma less_violation_vkey: "less_violation a b \<longleftrightarrow> vkey a < vkey b"
  by (auto simp: less_violation_def vkey_def less_prod_def)

lemma less_violation_asym: "less_violation a b \<Longrightarrow> \<not> less_violation b a"
  by (simp add: less_violation_vkey)

lemma less_violation_negtrans:
  "\<not> less_violation a b \<Longrightarrow> \<not> less_violation b c \<Longrightarrow> \<not> less_violation a c"
  by (simp add: less_violation_vkey not_less)

lemma mset_insert_down: "mset (insert_down lt x p) = add_mset x (mset p)"
  by (induction p) simp_all

lemma set_insert_down: "set (insert_down lt x p) = insert x (set p)"
  by (induction p) auto

lemma sorted_insert_down:
  "sorted_wrt (\<lambda>a b. \<not> less_violation a b) p \<Longrightarrow>
   sorted_wrt (\<lambda>a b. \<not> less_violation a b) (insert_down less_violation x p)"
proof (induction p)
  case Nil
  then show ?case by simp
next
  case (Cons y ys)
  show ?case
  proof (cases "less_violation x y")
    case True
    with Cons show ?thesis
      by (auto simp: set_insert_down dest: less_violation_asym)
  next
    case False
    with Cons show ?thesis
      using less_violation_negtrans [of x y] by auto
  qed
qed

lemma foldl_insert_down_mset:
  "mset (foldl (\<lambda>p x. insert_down lt x p) acc xs) = mset acc + mset xs"
  by (induction xs arbitrary: acc) (simp_all add: mset_insert_down)

lemma foldl_insert_down_sorted:
  "sorted_wrt (\<lambda>a b. \<not> less_violation a b) acc \<Longrightarrow>
   sorted_wrt (\<lambda>a b. \<not> less_violation a b)
     (foldl (\<lambda>p x. insert_down less_violation x p) acc xs)"
  by (induction xs arbitrary: acc) (simp_all add: sorted_insert_down)

text \<open>Insertion sort meets the contract of \<open>sort.Slice\<close>.\<close>

lemma insertionSort_func_ok: "sort_Slice_ok insertionSort_func"
  unfolding sort_Slice_ok_def insertionSort_func_def
  by (simp add: foldl_insert_down_mset sorted_wrt_rev foldl_insert_down_sorted)

lemma sort_Slice_ok_length:
  "sort_Slice_ok srt \<Longrightarrow> length (srt less_violation xs) = length xs"
  unfolding sort_Slice_ok_def by (metis size_mset)

lemma less_violation_examples:
  "\<not> less_violation vA vB" "\<not> less_violation vB vA"
  "less_violation vA vC" "\<not> less_violation vC vA"
  "less_violation vB vC" "\<not> less_violation vC vB"
  by (simp_all add: less_violation_def vA_def vB_def vC_def Level_def SeverityError_def
      SeverityWarning_def)

subsection \<open>The counting loop\<close>

lemma tally_Nil: "tally m f [] = m"
  by (simp add: tally_def count_by_def)

lemma tally_Cons: "tally m f (v # vs) = tally (incr m (f v)) f vs"
  by (rule ext) (simp add: tally_def count_by_def incr_def)

lemma tally_empty: "tally Map.empty f vs = counts_of f vs"
  by (rule ext) (simp add: tally_def counts_of_def)

lemma count_loop_eq:
  "count_loop s vs = s\<lparr>ByCategory := tally (ByCategory s) Category vs,
                        BySeverity := tally (BySeverity s) Severity vs\<rparr>"
  by (induction vs arbitrary: s) (simp_all add: tally_Nil tally_Cons)

lemma dom_incr: "dom (incr m k) = insert k (dom m)"
  by (auto simp: incr_def)

lemma sum_counts_incr:
  assumes "finite (dom m)"
  shows "sum_counts (incr m k) = sum_counts m + 1"
proof (cases "k \<in> dom m")
  case True
  then obtain c where c: "m k = Some c" by auto
  have d: "dom (incr m k) = dom m" using True by (auto simp: incr_def)
  have "sum_counts (incr m k) = (\<Sum>j\<in>dom m. the (incr m k j))"
    by (simp add: sum_counts_def d)
  also have "\<dots> = the (incr m k k) + (\<Sum>j\<in>dom m - {k}. the (incr m k j))"
    using assms True by (simp add: sum.remove)
  also have "(\<Sum>j\<in>dom m - {k}. the (incr m k j)) = (\<Sum>j\<in>dom m - {k}. the (m j))"
    by (rule sum.cong) (auto simp: incr_def)
  also have "the (incr m k k) = the (m k) + 1" by (simp add: incr_def c)
  finally show ?thesis using assms True by (simp add: sum_counts_def sum.remove)
next
  case False
  then have n: "m k = None" by auto
  have "sum_counts (incr m k) = the (incr m k k) + (\<Sum>j\<in>dom m. the (incr m k j))"
    using assms False by (simp add: sum_counts_def dom_incr)
  also have "(\<Sum>j\<in>dom m. the (incr m k j)) = (\<Sum>j\<in>dom m. the (m j))"
    using False by (intro sum.cong) (auto simp: incr_def)
  also have "the (incr m k k) = 1" by (simp add: incr_def n)
  finally show ?thesis by (simp add: sum_counts_def)
qed

lemma sum_counts_tally:
  "finite (dom m) \<Longrightarrow> sum_counts (tally m f vs) = sum_counts m + int (length vs)"
proof (induction vs arbitrary: m)
  case Nil
  then show ?case by (simp add: tally_Nil)
next
  case (Cons v vs)
  have "finite (dom (incr m (f v)))" using Cons.prems by (simp add: dom_incr)
  then show ?case using Cons by (simp add: tally_Cons sum_counts_incr)
qed

subsection \<open>Finalize\<close>

lemma Finalize_fields:
  "Violations (Finalize srt r) = srt less_violation (Violations r)"
  "ProjectPath (Finalize srt r) = ProjectPath r"
  "TotalFiles (Finalize srt r) = TotalFiles r"
  "Summary (Finalize srt r) =
     (Summary r)\<lparr>TotalViolations := int (length (Violations r)),
                 ByCategory := tally (ByCategory (Summary r)) Category (Violations r),
                 BySeverity := tally (BySeverity (Summary r)) Severity (Violations r)\<rparr>"
  by (simp_all add: Finalize_def Let_def count_loop_eq)

lemma foldl_AddViolation:
  "foldl AddViolation r vs = r\<lparr>Violations := Violations r @ vs\<rparr>"
  by (induction vs arbitrary: r) (simp_all add: AddViolation_def)

text \<open>
  A second \<open>Finalize\<close> changes the counter of every severity that occurs in the
  Report, whatever the sort does.
\<close>

lemma count_by_mset: "mset xs = mset ys \<Longrightarrow> count_by f k xs = count_by f k ys"
  unfolding count_by_def by (metis mset_filter size_mset)

lemma Finalize_twice_changes_counts:
  assumes "sort_Slice_ok srt" and "v \<in> set (Violations r)"
  shows "BySeverity (Summary (Finalize srt (Finalize srt r))) (Severity v) \<noteq>
         BySeverity (Summary (Finalize srt r)) (Severity v)"
proof -
  let ?vs = "Violations r"
  have m: "mset (srt less_violation ?vs) = mset ?vs"
    using assms(1) by (simp add: sort_Slice_ok_def)
  have "filter (\<lambda>w. Severity w = Severity v) ?vs \<noteq> []"
    using assms(2) by (auto simp: filter_empty_conv)
  then have p: "count_by Severity (Severity v) ?vs > 0"
    by (simp add: count_by_def)
  show ?thesis
    using p by (simp add: Finalize_fields tally_def count_by_mset [OF m])
qed

text \<open>
  Claim C1. The claim is that calling \<open>Finalize\<close> twice leaves the same state as
  calling it once. The counting loop adds to the maps it finds, so the code does not do
  this: on a Report holding one error finding of category naming, one call leaves both
  counters at 1 and a second call raises them to 2, while \<open>TotalViolations\<close>, which
  is assigned, stays 1. The two states differ.
\<close>

theorem Finalize_twice_counts_double:
  "BySeverity (Summary (Finalize insertionSort_func (AddViolation (NewReport ''p'') vA)))
     ''error'' = Some 1 \<and>
   BySeverity (Summary (Finalize insertionSort_func
      (Finalize insertionSort_func (AddViolation (NewReport ''p'') vA)))) ''error'' = Some 2 \<and>
   ByCategory (Summary (Finalize insertionSort_func (AddViolation (NewReport ''p'') vA)))
     ''naming'' = Some 1 \<and>
   ByCategory (Summary (Finalize insertionSort_func
      (Finalize insertionSort_func (AddViolation (NewReport ''p'') vA)))) ''naming'' = Some 2 \<and>
   TotalViolations (Summary (Finalize insertionSort_func
      (Finalize insertionSort_func (AddViolation (NewReport ''p'') vA)))) = 1 \<and>
   Finalize insertionSort_func (Finalize insertionSort_func (AddViolation (NewReport ''p'') vA))
     \<noteq> Finalize insertionSort_func (AddViolation (NewReport ''p'') vA)"
proof -
  let ?r = "AddViolation (NewReport ''p'') vA"
  have v: "Violations ?r = [vA]" by (simp add: AddViolation_def NewReport_def)
  have 1: "BySeverity (Summary (Finalize insertionSort_func ?r)) ''error'' = Some 1"
    by (simp add: Finalize_fields v tally_def count_by_def vA_def NewReport_def AddViolation_def)
  have 2: "BySeverity (Summary (Finalize insertionSort_func (Finalize insertionSort_func ?r)))
      ''error'' = Some 2"
    by (simp add: Finalize_fields insertionSort_func_def tally_def count_by_def vA_def
        NewReport_def AddViolation_def)
  have 3: "ByCategory (Summary (Finalize insertionSort_func ?r)) ''naming'' = Some 1"
    by (simp add: Finalize_fields v tally_def count_by_def vA_def NewReport_def AddViolation_def)
  have 4: "ByCategory (Summary (Finalize insertionSort_func (Finalize insertionSort_func ?r)))
      ''naming'' = Some 2"
    by (simp add: Finalize_fields insertionSort_func_def tally_def count_by_def vA_def
        NewReport_def AddViolation_def)
  have 5: "TotalViolations (Summary (Finalize insertionSort_func
      (Finalize insertionSort_func ?r))) = 1"
    by (simp add: Finalize_fields v insertionSort_func_def)
  have 6: "Finalize insertionSort_func (Finalize insertionSort_func ?r)
      \<noteq> Finalize insertionSort_func ?r"
    using 1 2 by auto
  show ?thesis using 1 2 3 4 5 6 by blast
qed

subsection \<open>Ties\<close>

lemma less_violation_tied:
  "\<not> less_violation (tied a) (tied b)" "less_violation early (tied a)"
  "\<not> less_violation (tied a) early" "\<not> less_violation early early"
  by (simp_all add: less_violation_def tied_def early_def)

lemma pdqsort_13_findings13:
  "pdqsort_13 less_violation findings13 =
     [early, tied 6, tied 2, tied 3, tied 4, tied 5, tied 0, tied 7, tied 8, tied 9, tied 10,
      tied 11, tied 1]"
  by (simp add: pdqsort_13_def choosePivot_func_def median_func_def order2_func_def
      less_at_def findings13_def less_violation_tied partialInsertionSort_short_def
      first_descent.simps partition_func_def scan_up.simps scan_down.simps
      partition_loop.simps swap_at_def Let_def insertionSort_range_def insertionSort_func_def)

lemma filter_insert_down:
  "filter (\<lambda>v. vkey v = k) (insert_down less_violation x p) =
     (if vkey x = k then x # filter (\<lambda>v. vkey v = k) p else filter (\<lambda>v. vkey v = k) p)"
  by (induction p) (auto simp: less_violation_vkey)

lemma filter_foldl_insert_down:
  "filter (\<lambda>v. vkey v = k) (foldl (\<lambda>p x. insert_down less_violation x p) acc xs) =
     rev (filter (\<lambda>v. vkey v = k) xs) @ filter (\<lambda>v. vkey v = k) acc"
  by (induction xs arbitrary: acc) (simp_all add: filter_insert_down)

text \<open>Insertion sort keeps findings of equal key in their order.\<close>

lemma insertionSort_func_stable:
  "filter (\<lambda>v. vkey v = k) (insertionSort_func less_violation xs) = filter (\<lambda>v. vkey v = k) xs"
  by (simp add: insertionSort_func_def rev_filter [symmetric] filter_foldl_insert_down)

lemma vkey_eq:
  "(Level (Severity v) = l \<and> File v = f \<and> Line v = n) \<longleftrightarrow> vkey v = (- l, f, n)"
  by (auto simp: vkey_def)

text \<open>
  Claim C2, as stated, fails in two places. The final order is not determined by the
  multiset of findings: \<open>vA\<close> and \<open>vB\<close> agree on severity, file and line and
  differ in their rule, and appended in either order they come out of \<open>Finalize\<close> in
  the order they went in. And the sort is not stable: of thirteen findings, twelve on
  line 2 appended in the order of their columns 0 to 11 and then one on line 1, the
  finding of column 6 comes out before the finding of column 0, and that of column 1
  last. \<open>sort.Slice\<close> is the library's code for slices of 2 and of 13 elements here.
\<close>

theorem Finalize_neither_deterministic_nor_stable:
  "mset [vA, vB] = mset [vB, vA] \<and>
   Violations (Finalize (sort_Slice_upto13 insertionSort_func)
      (AddViolation (AddViolation (NewReport ''p'') vA) vB)) = [vA, vB] \<and>
   Violations (Finalize (sort_Slice_upto13 insertionSort_func)
      (AddViolation (AddViolation (NewReport ''p'') vB) vA)) = [vB, vA] \<and>
   [vA, vB] \<noteq> [vB, vA] \<and>
   map Line (Violations (foldl AddViolation (NewReport ''p'') findings13)) =
     [2, 2, 2, 2, 2, 2, 2, 2, 2, 2, 2, 2, 1] \<and>
   map Column (Violations (foldl AddViolation (NewReport ''p'') findings13)) =
     [0, 1, 2, 3, 4, 5, 6, 7, 8, 9, 10, 11, 12] \<and>
   map Line (Violations (Finalize (sort_Slice_upto13 insertionSort_func)
      (foldl AddViolation (NewReport ''p'') findings13))) =
     [1, 2, 2, 2, 2, 2, 2, 2, 2, 2, 2, 2, 2] \<and>
   map Column (Violations (Finalize (sort_Slice_upto13 insertionSort_func)
      (foldl AddViolation (NewReport ''p'') findings13))) =
     [12, 6, 2, 3, 4, 5, 0, 7, 8, 9, 10, 11, 1]"
proof -
  have ne: "vA \<noteq> vB" by (simp add: vA_def vB_def)
  have two: "Violations (Finalize (sort_Slice_upto13 insertionSort_func)
        (AddViolation (AddViolation (NewReport ''p'') vA) vB)) = [vA, vB]"
      "Violations (Finalize (sort_Slice_upto13 insertionSort_func)
        (AddViolation (AddViolation (NewReport ''p'') vB) vA)) = [vB, vA]"
    by (simp_all add: Finalize_fields AddViolation_def NewReport_def sort_Slice_upto13_def
        insertionSort_func_def less_violation_examples)
  have v: "Violations (foldl AddViolation (NewReport ''p'') findings13) = findings13"
    by (simp add: foldl_AddViolation NewReport_def)
  have l: "length findings13 = 13" by (simp add: findings13_def)
  have s: "Violations (Finalize (sort_Slice_upto13 insertionSort_func)
        (foldl AddViolation (NewReport ''p'') findings13)) =
      [early, tied 6, tied 2, tied 3, tied 4, tied 5, tied 0, tied 7, tied 8, tied 9, tied 10,
       tied 11, tied 1]"
    by (simp add: Finalize_fields v sort_Slice_upto13_def l pdqsort_13_findings13)
  have i: "map Line findings13 = [2, 2, 2, 2, 2, 2, 2, 2, 2, 2, 2, 2, 1]"
      "map Column findings13 = [0, 1, 2, 3, 4, 5, 6, 7, 8, 9, 10, 11, 12]"
    by (simp_all add: findings13_def tied_def early_def)
  show ?thesis
    unfolding s v using ne two i by (simp add: tied_def early_def)
qed

text \<open>
  Claim C2, amended. After any call to \<open>Finalize\<close> the findings are the findings
  from before the call, ordered by severity level descending, then file path
  ascending, then line ascending, for every sort that meets the contract of
  \<open>sort.Slice\<close>. When the Report holds at most 12 findings, which the library sorts by
  insertion, findings equal on all three keys keep their relative insertion order.
\<close>

theorem Finalize_sorted:
  assumes "sort_Slice_ok srt"
  shows "mset (Violations (Finalize srt r)) = mset (Violations r) \<and>
         (\<forall>i j. i < j \<and> j < length (Violations (Finalize srt r)) \<longrightarrow>
            (let a = Violations (Finalize srt r) ! i; b = Violations (Finalize srt r) ! j
             in Level (Severity a) \<ge> Level (Severity b) \<and>
                (Level (Severity a) = Level (Severity b) \<longrightarrow>
                   File a \<le> File b \<and> (File a = File b \<longrightarrow> Line a \<le> Line b)))) \<and>
         ((\<forall>xs. length xs \<le> 12 \<longrightarrow>
             srt less_violation xs = insertionSort_func less_violation xs) \<longrightarrow>
          length (Violations r) \<le> 12 \<longrightarrow>
          (\<forall>l f n.
             filter (\<lambda>v. Level (Severity v) = l \<and> File v = f \<and> Line v = n)
               (Violations (Finalize srt r)) =
             filter (\<lambda>v. Level (Severity v) = l \<and> File v = f \<and> Line v = n) (Violations r)))"
proof -
  let ?xs = "srt less_violation (Violations r)"
  have m: "mset ?xs = mset (Violations r)"
    and s: "sorted_wrt (\<lambda>a b. \<not> less_violation b a) ?xs"
    using assms by (simp_all add: sort_Slice_ok_def)
  have "\<And>i j. i < j \<Longrightarrow> j < length ?xs \<Longrightarrow> \<not> less_violation (?xs ! j) (?xs ! i)"
    using s by (simp add: sorted_wrt_iff_nth_less)
  then have o: "\<And>i j. i < j \<Longrightarrow> j < length ?xs \<Longrightarrow>
      Level (Severity (?xs ! i)) \<ge> Level (Severity (?xs ! j)) \<and>
      (Level (Severity (?xs ! i)) = Level (Severity (?xs ! j)) \<longrightarrow>
         File (?xs ! i) \<le> File (?xs ! j) \<and>
         (File (?xs ! i) = File (?xs ! j) \<longrightarrow> Line (?xs ! i) \<le> Line (?xs ! j)))"
    by (fastforce simp: less_violation_def split: if_splits)
  have t: "filter (\<lambda>v. Level (Severity v) = l \<and> File v = f \<and> Line v = n) ?xs =
      filter (\<lambda>v. Level (Severity v) = l \<and> File v = f \<and> Line v = n) (Violations r)"
    if "\<forall>xs. length xs \<le> 12 \<longrightarrow> srt less_violation xs = insertionSort_func less_violation xs"
      and "length (Violations r) \<le> 12" for l f n
  proof -
    have "?xs = insertionSort_func less_violation (Violations r)" using that by simp
    then show ?thesis by (simp add: vkey_eq insertionSort_func_stable)
  qed
  show ?thesis
    using m o t by (simp add: Finalize_fields Let_def)
qed

theorem Finalize_sorted_witness:
  "sort_Slice_ok insertionSort_func \<and>
   Violations (Finalize insertionSort_func
      (AddViolation (AddViolation (AddViolation (NewReport ''p'') vC) vA) vB)) = [vA, vB, vC] \<and>
   mset [vA, vB, vC] = mset [vC, vA, vB] \<and>
   Level (Severity vA) \<ge> Level (Severity vC) \<and> Level (Severity vA) \<noteq> Level (Severity vC) \<and>
   length [vC, vA, vB] \<le> 12 \<and>
   filter (\<lambda>v. Level (Severity v) = 3 \<and> File v = ''a.go'' \<and> Line v = 3) [vA, vB, vC] =
     filter (\<lambda>v. Level (Severity v) = 3 \<and> File v = ''a.go'' \<and> Line v = 3) [vC, vA, vB] \<and>
   filter (\<lambda>v. Level (Severity v) = 3 \<and> File v = ''a.go'' \<and> Line v = 3) [vC, vA, vB] = [vA, vB]"
proof -
  let ?r = "AddViolation (AddViolation (AddViolation (NewReport ''p'') vC) vA) vB"
  have v: "Violations (Finalize insertionSort_func ?r) = [vA, vB, vC]"
    by (simp add: Finalize_fields AddViolation_def NewReport_def insertionSort_func_def
        less_violation_examples)
  have r: "Violations ?r = [vC, vA, vB]"
    by (simp add: AddViolation_def NewReport_def)
  note t = Finalize_sorted [OF insertionSort_func_ok, of ?r]
  have m: "mset [vA, vB, vC] = mset [vC, vA, vB]"
    using t [THEN conjunct1] by (simp only: v r)
  have "0 < (2::nat) \<and> 2 < length (Violations (Finalize insertionSort_func ?r))"
    by (simp add: v)
  with t [THEN conjunct2, THEN conjunct1, rule_format, of 0 2]
  have g: "Level (Severity vA) \<ge> Level (Severity vC)"
    by (simp add: v Let_def)
  have n: "Level (Severity vA) \<noteq> Level (Severity vC)"
    by (simp add: vA_def vC_def Level_def SeverityError_def SeverityWarning_def)
  have h: "insertionSort_func less_violation xs = insertionSort_func less_violation xs"
    if "length xs \<le> 12" for xs
    by simp
  have l: "length (Violations ?r) \<le> 12" by (simp add: r)
  have st: "filter (\<lambda>v. Level (Severity v) = 3 \<and> File v = ''a.go'' \<and> Line v = 3) [vA, vB, vC] =
     filter (\<lambda>v. Level (Severity v) = 3 \<and> File v = ''a.go'' \<and> Line v = 3) [vC, vA, vB]"
    using t [THEN conjunct2, THEN conjunct2, rule_format, OF h l, of 3 "''a.go''" 3]
    by (simp only: v r)
  have e: "filter (\<lambda>v. Level (Severity v) = 3 \<and> File v = ''a.go'' \<and> Line v = 3) [vC, vA, vB]
      = [vA, vB]"
    by (simp add: vA_def vB_def vC_def Level_def SeverityError_def SeverityWarning_def)
  show ?thesis using insertionSort_func_ok v m g n st e by simp
qed

subsection \<open>The summary\<close>

lemma finite_dom_tally: "finite (dom m) \<Longrightarrow> finite (dom (tally m f vs))"
  by (induction vs arbitrary: m) (simp_all add: tally_Nil tally_Cons dom_incr)

text \<open>\<open>TotalViolations\<close> is the length of the slice after every call, on every Report.\<close>

lemma Finalize_TotalViolations:
  "sort_Slice_ok srt \<Longrightarrow>
   TotalViolations (Summary (Finalize srt r)) = int (length (Violations (Finalize srt r)))"
  by (simp add: Finalize_fields sort_Slice_ok_length)

text \<open>Every call adds the number of violations to the sum of the severity counters.\<close>

lemma Finalize_sum_counts:
  "finite (dom (BySeverity (Summary r))) \<Longrightarrow>
   sum_counts (BySeverity (Summary (Finalize srt r))) =
     sum_counts (BySeverity (Summary r)) + int (length (Violations r))"
  by (simp add: Finalize_fields sum_counts_tally)

text \<open>
  On a Report as \<open>NewReport\<close> and \<open>AddViolation\<close> build it, the first \<open>Finalize\<close>
  leaves the sum of the severity counters equal to \<open>TotalViolations\<close>.
\<close>

lemma Finalize_summary_fresh:
  assumes "sort_Slice_ok srt"
  shows "TotalViolations (Summary (Finalize srt (foldl AddViolation (NewReport p) vs))) =
           int (length (Violations (Finalize srt (foldl AddViolation (NewReport p) vs)))) \<and>
         sum_counts (BySeverity (Summary (Finalize srt (foldl AddViolation (NewReport p) vs)))) =
           TotalViolations (Summary (Finalize srt (foldl AddViolation (NewReport p) vs)))"
proof -
  let ?r = "foldl AddViolation (NewReport p) vs"
  have e: "BySeverity (Summary ?r) = Map.empty" and v: "Violations ?r = vs"
    by (simp_all add: foldl_AddViolation NewReport_def)
  have "sum_counts (tally Map.empty Severity vs) = sum_counts Map.empty + int (length vs)"
    by (rule sum_counts_tally) simp
  then have "sum_counts (tally Map.empty Severity vs) = int (length vs)"
    by (simp add: sum_counts_def)
  then show ?thesis
    using assms by (simp add: Finalize_fields e v sort_Slice_ok_length)
qed

text \<open>
  Claim C3. The claim is that after \<open>Finalize\<close> has been called on a Report,
  \<open>TotalViolations\<close> is the length of the slice and the severity counters sum to
  \<open>TotalViolations\<close>. The first part holds after every call. The second holds
  after the first call on a fresh Report and fails after the next: on a Report holding
  one finding, a second \<open>Finalize\<close> leaves the sum of the severity counters at 2
  while \<open>TotalViolations\<close> and the length of the slice are 1.
\<close>

theorem Finalize_twice_breaks_summary_sum:
  "sum_counts (BySeverity (Summary (Finalize insertionSort_func
      (AddViolation (NewReport ''p'') vA)))) = 1 \<and>
   TotalViolations (Summary (Finalize insertionSort_func
      (AddViolation (NewReport ''p'') vA))) = 1 \<and>
   sum_counts (BySeverity (Summary (Finalize insertionSort_func
      (Finalize insertionSort_func (AddViolation (NewReport ''p'') vA))))) = 2 \<and>
   TotalViolations (Summary (Finalize insertionSort_func
      (Finalize insertionSort_func (AddViolation (NewReport ''p'') vA)))) = 1 \<and>
   length (Violations (Finalize insertionSort_func
      (Finalize insertionSort_func (AddViolation (NewReport ''p'') vA)))) = 1"
proof -
  let ?r = "AddViolation (NewReport ''p'') vA"
  let ?r1 = "Finalize insertionSort_func ?r"
  have v: "Violations ?r = [vA]" by (simp add: AddViolation_def NewReport_def)
  have v1: "Violations ?r1 = [vA]"
    by (simp add: Finalize_fields v insertionSort_func_def)
  have e: "BySeverity (Summary ?r) = Map.empty"
    by (simp add: AddViolation_def NewReport_def)
  have s1: "sum_counts (BySeverity (Summary ?r1)) = 1"
    using Finalize_sum_counts [of ?r insertionSort_func] by (simp add: e v sum_counts_def)
  have f1: "finite (dom (BySeverity (Summary ?r1)))"
    by (simp add: Finalize_fields e finite_dom_tally)
  have s2: "sum_counts (BySeverity (Summary (Finalize insertionSort_func ?r1))) = 2"
    using Finalize_sum_counts [OF f1, of insertionSort_func] by (simp add: s1 v1)
  have t1: "TotalViolations (Summary ?r1) = 1" by (simp add: Finalize_fields v)
  have t2: "TotalViolations (Summary (Finalize insertionSort_func ?r1)) = 1"
    by (simp add: Finalize_fields sort_Slice_ok_length [OF insertionSort_func_ok] v)
  have l2: "length (Violations (Finalize insertionSort_func ?r1)) = 1"
    by (simp add: Finalize_fields sort_Slice_ok_length [OF insertionSort_func_ok] v)
  show ?thesis using s1 s2 t1 t2 l2 by simp
qed

subsection \<open>Filter\<close>

lemma Filter_loop_eq:
  "f < length h \<Longrightarrow>
   Filter_loop h f s vs =
     h[f := (h ! f)\<lparr>Violations :=
        Violations (h ! f) @ filter (\<lambda>v. Level (Severity v) \<ge> Level s) vs\<rparr>]"
proof (induction vs arbitrary: h)
  case Nil
  then show ?case by simp
next
  case (Cons v vs)
  then show ?case by (simp add: AddViolation_def)
qed

text \<open>
  Claim C4. \<open>Filter\<close> on the Report at address \<open>r\<close> allocates a new Report at a
  fresh address \<open>f\<close> and leaves every Report of the store as it was, the receiver among
  them. The new Report holds exactly the violations of the receiver whose severity
  level is at least the level of the threshold, sorted by \<open>Finalize\<close>; its
  \<open>ProjectPath\<close> and \<open>TotalFiles\<close> are the receiver's; its summary is counted from
  the retained violations alone.
\<close>

theorem Filter_correct:
  assumes "sort_Slice_ok srt" and "r < length h" and "Filter srt h r s = (f, h')"
  shows "f = length h \<and> length h' = Suc (length h) \<and> (\<forall>p < length h. h' ! p = h ! p) \<and>
         Violations (h' ! f) =
           srt less_violation
             (filter (\<lambda>v. Level (Severity v) \<ge> Level s) (Violations (h ! r))) \<and>
         mset (Violations (h' ! f)) =
           mset (filter (\<lambda>v. Level (Severity v) \<ge> Level s) (Violations (h ! r))) \<and>
         TotalFiles (h' ! f) = TotalFiles (h ! r) \<and>
         ProjectPath (h' ! f) = ProjectPath (h ! r) \<and>
         Summary (h' ! f) =
           \<lparr>TotalViolations =
              int (length (filter (\<lambda>v. Level (Severity v) \<ge> Level s) (Violations (h ! r)))),
            ByCategory =
              counts_of Category
                (filter (\<lambda>v. Level (Severity v) \<ge> Level s) (Violations (h ! r))),
            BySeverity =
              counts_of Severity
                (filter (\<lambda>v. Level (Severity v) \<ge> Level s) (Violations (h ! r))),
            PassedRules = 0, FailedRules = 0\<rparr>"
proof -
  let ?kept = "filter (\<lambda>v. Level (Severity v) \<ge> Level s) (Violations (h ! r))"
  let ?n = "length h"
  let ?new = "(NewReport (ProjectPath (h ! r)))\<lparr>TotalFiles := TotalFiles (h ! r)\<rparr>"
  have h3: "Filter_loop (h @ [?new]) ?n s (Violations (h ! r)) =
      h @ [?new\<lparr>Violations := ?kept\<rparr>]"
    by (subst Filter_loop_eq) (simp_all add: NewReport_def)
  have F: "Filter srt h r s = (?n, h @ [Finalize srt (?new\<lparr>Violations := ?kept\<rparr>)])"
    unfolding Filter_def alloc_Report_def Let_def prod.case
    using assms(2) by (simp add: nth_append h3 del: list_update.simps)
  then have f: "f = ?n" and h': "h' = h @ [Finalize srt (?new\<lparr>Violations := ?kept\<rparr>)]"
    using assms(3) by simp_all
  have new: "h' ! f = Finalize srt (?new\<lparr>Violations := ?kept\<rparr>)"
    by (simp add: f h')
  have old: "\<forall>p < length h. h' ! p = h ! p" by (simp add: h' nth_append)
  have m: "mset (srt less_violation ?kept) = mset ?kept"
    using assms(1) by (simp add: sort_Slice_ok_def)
  show ?thesis
    using old m by (simp add: new Finalize_fields tally_empty NewReport_def f h')
qed

theorem Filter_correct_witness:
  "sort_Slice_ok insertionSort_func \<and>
   (0::nat) < length [foldl AddViolation (NewReport ''p'') [vC, vA]] \<and>
   fst (Filter insertionSort_func [foldl AddViolation (NewReport ''p'') [vC, vA]] 0 ''error'') = 1 \<and>
   snd (Filter insertionSort_func [foldl AddViolation (NewReport ''p'') [vC, vA]] 0 ''error'') ! 0 =
     foldl AddViolation (NewReport ''p'') [vC, vA] \<and>
   Violations (snd (Filter insertionSort_func [foldl AddViolation (NewReport ''p'') [vC, vA]] 0 ''error'') ! 1) = [vA] \<and>
   TotalViolations (Summary (snd (Filter insertionSort_func [foldl AddViolation (NewReport ''p'') [vC, vA]] 0 ''error'') ! 1)) = 1"
proof -
  let ?h = "[foldl AddViolation (NewReport ''p'') [vC, vA]]"
  let ?F = "Filter insertionSort_func ?h 0 ''error''"
  have l: "(0::nat) < length ?h" by simp
  have k: "filter (\<lambda>v. Level (Severity v) \<ge> Level ''error'') (Violations (?h ! 0)) = [vA]"
    by (simp add: AddViolation_def NewReport_def vA_def vC_def Level_def SeverityError_def
        SeverityWarning_def)
  have s: "insertionSort_func less_violation [vA] = [vA]"
    by (simp add: insertionSort_func_def)
  note t = Filter_correct [OF insertionSort_func_ok l surjective_pairing [of ?F]]
  have f: "fst ?F = 1" using t by simp
  have 1: "snd ?F ! 0 = ?h ! 0" using t by simp
  have 2: "Violations (snd ?F ! 1) = [vA]" using t unfolding f k s by blast
  have 3: "TotalViolations (Summary (snd ?F ! 1)) = 1" using t unfolding f k by simp
  show ?thesis using insertionSort_func_ok l f 1 2 3 by simp
qed

section \<open>The rules on functions\<close>

subsection \<open>What each check appends\<close>

lemma addViolation_simps:
  "Violations (report (addViolation c v)) = Violations (report c) @ [v]"
  "config (addViolation c v) = config c"
  "fileMap (addViolation c v) = fileMap c"
  "stdout (addViolation c v) = stdout c"
  by (simp_all add: addViolation_def AddViolation_def)

lemma sublist_skip: "sublist x ys \<Longrightarrow> sublist x (p @ ys)"
  unfolding sublist_def by (metis append.assoc)

lemma Sprintf_max_function_lines_contains:
  "sublist (itoa n) (Sprintf_max_function_lines name n l)"
  "sublist (itoa l) (Sprintf_max_function_lines name n l)"
  unfolding Sprintf_max_function_lines_def
  by (rule sublist_skip, rule sublist_skip, rule sublist_skip, rule sublist_append_rightI,
      rule sublist_skip, rule sublist_skip, rule sublist_skip, rule sublist_skip,
      rule sublist_skip, rule sublist_append_rightI)

lemma checkFunction_name_config: "config (checkFunction_name env c fn fp) = config c"
  by (simp add: checkFunction_name_def Let_def addViolation_simps)

lemma checkFunction_lines_config: "config (checkFunction_lines c fn fp) = config c"
  by (simp add: checkFunction_lines_def Let_def addViolation_simps)

lemma checkFunction_params_config: "config (checkFunction_params c fn fp) = config c"
  by (simp add: checkFunction_params_def Let_def addViolation_simps split: option.split)

lemma checkFunction_results_config: "config (checkFunction_results c fn fp) = config c"
  by (simp add: checkFunction_results_def Let_def addViolation_simps split: option.split)

lemma checkFunction_nesting_config: "config (checkFunction_nesting c fn fp) = config c"
  by (simp add: checkFunction_nesting_def Let_def addViolation_simps)

lemmas checkFunction_configs = checkFunction_name_config checkFunction_lines_config
  checkFunction_params_config checkFunction_results_config checkFunction_nesting_config

lemma checkFunction_name_added:
  "\<exists>vs. Violations (report (checkFunction_name env c fn fp)) = Violations (report c) @ vs \<and>
        list_all (\<lambda>v. Rule v = ''exported_name'') vs \<and>
        (vs \<noteq> [] \<longleftrightarrow>
           NamingConfig.Enabled (Naming (config c)) \<and>
           BaseRule.Enabled (ExportedNames (NamingConfig.Rules (Naming (config c)))) \<and>
           ast_IsExported env (Ident.Name (FuncDecl.Name fn)) \<and>
           \<not> isPascalCase (Ident.Name (FuncDecl.Name fn)))"
  by (auto simp add: checkFunction_name_def Let_def addViolation_simps)

lemma checkFunction_lines_added:
  "\<exists>vs. Violations (report (checkFunction_lines c fn fp)) = Violations (report c) @ vs \<and>
        list_all (\<lambda>v. Rule v = ''max_function_lines'' \<and>
        Message v =
          Sprintf_max_function_lines (Ident.Name (FuncDecl.Name fn))
            (Position.Line (FuncDecl.End fn) - Position.Line (FuncDecl.Pos fn))
            (Limit (MaxFunctionLines (StructureConfig.Rules (Structure (config c))))) \<and>
           sublist (itoa (Limit (MaxFunctionLines (StructureConfig.Rules (Structure (config c))))))
             (Message v) \<and>
           sublist (itoa (Position.Line (FuncDecl.End fn) - Position.Line (FuncDecl.Pos fn)))
             (Message v)) vs \<and>
        length vs =
          (if StructureConfig.Enabled (Structure (config c)) \<and>
              BaseRule.Enabled (MaxFunctionLines (StructureConfig.Rules (Structure (config c)))) \<and>
              Position.Line (FuncDecl.End fn) - Position.Line (FuncDecl.Pos fn) >
                Limit (MaxFunctionLines (StructureConfig.Rules (Structure (config c))))
           then 1 else 0)"
  by (simp add: checkFunction_lines_def Let_def addViolation_simps
      Sprintf_max_function_lines_contains)

lemma checkFunction_params_added:
  "\<exists>vs. Violations (report (checkFunction_params c fn fp)) = Violations (report c) @ vs \<and>
        list_all (\<lambda>v. Rule v = ''max_parameters'') vs \<and>
        length vs =
          (if StructureConfig.Enabled (Structure (config c)) \<and>
              BaseRule.Enabled (MaxParameters (StructureConfig.Rules (Structure (config c)))) \<and>
              (case Params fn of None \<Rightarrow> False
               | Some ps \<Rightarrow> int (length ps) >
                   Limit (MaxParameters (StructureConfig.Rules (Structure (config c)))))
           then 1 else 0)"
  by (simp add: checkFunction_params_def Let_def addViolation_simps split: option.split)

lemma checkFunction_results_added:
  "\<exists>vs. Violations (report (checkFunction_results c fn fp)) = Violations (report c) @ vs \<and>
        list_all (\<lambda>v. Rule v = ''max_return_values'') vs \<and>
        length vs =
          (if StructureConfig.Enabled (Structure (config c)) \<and>
              BaseRule.Enabled (MaxReturnValues (StructureConfig.Rules (Structure (config c)))) \<and>
              (case Results fn of None \<Rightarrow> False
               | Some rs \<Rightarrow> int (length rs) >
                   Limit (MaxReturnValues (StructureConfig.Rules (Structure (config c)))))
           then 1 else 0)"
  by (simp add: checkFunction_results_def Let_def addViolation_simps split: option.split)

lemma checkFunction_nesting_added:
  "\<exists>vs. Violations (report (checkFunction_nesting c fn fp)) = Violations (report c) @ vs \<and>
        list_all (\<lambda>v. Rule v = ''max_nesting_level'') vs \<and>
        length vs =
          (if StructureConfig.Enabled (Structure (config c)) \<and>
              BaseRule.Enabled (MaxNestingLevel (StructureConfig.Rules (Structure (config c)))) \<and>
              checkNestingLevel (Body fn) 0 >
                Limit (MaxNestingLevel (StructureConfig.Rules (Structure (config c))))
           then 1 else 0)"
  by (simp add: checkFunction_nesting_def Let_def addViolation_simps)

lemma findings_of_other:
  "list_all (\<lambda>v. Rule v = a) vs \<Longrightarrow> a \<noteq> b \<Longrightarrow> findings_of b vs = []"
  by (induction vs) (auto simp: findings_of_def)

lemma findings_of_same: "list_all (\<lambda>v. Rule v = a) vs \<Longrightarrow> findings_of a vs = vs"
  by (induction vs) (auto simp: findings_of_def)

lemma findings_of_append: "findings_of a (xs @ ys) = findings_of a xs @ findings_of a ys"
  by (simp add: findings_of_def)

lemma list_all_weaken: "list_all (\<lambda>v. P v \<and> Q v) vs \<Longrightarrow> list_all P vs"
  by (induction vs) auto

text \<open>The findings \<open>checkFunction\<close> appends, check by check.\<close>

lemma checkFunction_added:
  "\<exists>v1 v2 v3 v4 v5.
     added c (checkFunction env c fn fp) = v1 @ v2 @ v3 @ v4 @ v5 \<and>
     list_all (\<lambda>v. Rule v = ''exported_name'') v1 \<and>
     (v1 \<noteq> [] \<longleftrightarrow>
        NamingConfig.Enabled (Naming (config c)) \<and>
        BaseRule.Enabled (ExportedNames (NamingConfig.Rules (Naming (config c)))) \<and>
        ast_IsExported env (Ident.Name (FuncDecl.Name fn)) \<and>
        \<not> isPascalCase (Ident.Name (FuncDecl.Name fn))) \<and>
     list_all (\<lambda>v. Rule v = ''max_function_lines'' \<and>
        Message v =
          Sprintf_max_function_lines (Ident.Name (FuncDecl.Name fn))
            (Position.Line (FuncDecl.End fn) - Position.Line (FuncDecl.Pos fn))
            (Limit (MaxFunctionLines (StructureConfig.Rules (Structure (config c))))) \<and>
        sublist (itoa (Limit (MaxFunctionLines (StructureConfig.Rules (Structure (config c))))))
          (Message v) \<and>
        sublist (itoa (Position.Line (FuncDecl.End fn) - Position.Line (FuncDecl.Pos fn)))
          (Message v)) v2 \<and>
     length v2 =
       (if StructureConfig.Enabled (Structure (config c)) \<and>
           BaseRule.Enabled (MaxFunctionLines (StructureConfig.Rules (Structure (config c)))) \<and>
           Position.Line (FuncDecl.End fn) - Position.Line (FuncDecl.Pos fn) >
             Limit (MaxFunctionLines (StructureConfig.Rules (Structure (config c))))
        then 1 else 0) \<and>
     list_all (\<lambda>v. Rule v = ''max_parameters'') v3 \<and>
     length v3 =
       (if StructureConfig.Enabled (Structure (config c)) \<and>
           BaseRule.Enabled (MaxParameters (StructureConfig.Rules (Structure (config c)))) \<and>
           (case Params fn of None \<Rightarrow> False
            | Some ps \<Rightarrow> int (length ps) >
                Limit (MaxParameters (StructureConfig.Rules (Structure (config c)))))
        then 1 else 0) \<and>
     list_all (\<lambda>v. Rule v = ''max_return_values'') v4 \<and>
     length v4 =
       (if StructureConfig.Enabled (Structure (config c)) \<and>
           BaseRule.Enabled (MaxReturnValues (StructureConfig.Rules (Structure (config c)))) \<and>
           (case Results fn of None \<Rightarrow> False
            | Some rs \<Rightarrow> int (length rs) >
                Limit (MaxReturnValues (StructureConfig.Rules (Structure (config c)))))
        then 1 else 0) \<and>
     list_all (\<lambda>v. Rule v = ''max_nesting_level'') v5 \<and>
     length v5 =
       (if StructureConfig.Enabled (Structure (config c)) \<and>
           BaseRule.Enabled (MaxNestingLevel (StructureConfig.Rules (Structure (config c)))) \<and>
           checkNestingLevel (Body fn) 0 >
             Limit (MaxNestingLevel (StructureConfig.Rules (Structure (config c))))
        then 1 else 0)"
proof -
  define c1 where "c1 = checkFunction_name env c fn fp"
  define c2 where "c2 = checkFunction_lines c1 fn fp"
  define c3 where "c3 = checkFunction_params c2 fn fp"
  define c4 where "c4 = checkFunction_results c3 fn fp"
  define c5 where "c5 = checkFunction_nesting c4 fn fp"
  have cf: "config c1 = config c" "config c2 = config c" "config c3 = config c"
    "config c4 = config c"
    by (simp_all add: c1_def c2_def c3_def c4_def checkFunction_configs)
  have r: "checkFunction env c fn fp = c5"
    by (simp add: checkFunction_def Let_def c1_def c2_def c3_def c4_def c5_def)
  from checkFunction_name_added [of env c fn fp] obtain v1 where
    1: "Violations (report c1) = Violations (report c) @ v1"
       "list_all (\<lambda>v. Rule v = ''exported_name'') v1"
       "v1 \<noteq> [] \<longleftrightarrow>
          NamingConfig.Enabled (Naming (config c)) \<and>
          BaseRule.Enabled (ExportedNames (NamingConfig.Rules (Naming (config c)))) \<and>
          ast_IsExported env (Ident.Name (FuncDecl.Name fn)) \<and>
          \<not> isPascalCase (Ident.Name (FuncDecl.Name fn))"
    unfolding c1_def by blast
  from checkFunction_lines_added [of c1 fn fp] obtain v2 where
    2: "Violations (report c2) = Violations (report c1) @ v2"
       "list_all (\<lambda>v. Rule v = ''max_function_lines'' \<and>
        Message v =
          Sprintf_max_function_lines (Ident.Name (FuncDecl.Name fn))
            (Position.Line (FuncDecl.End fn) - Position.Line (FuncDecl.Pos fn))
            (Limit (MaxFunctionLines (StructureConfig.Rules (Structure (config c))))) \<and>
          sublist (itoa (Limit (MaxFunctionLines (StructureConfig.Rules (Structure (config c))))))
            (Message v) \<and>
          sublist (itoa (Position.Line (FuncDecl.End fn) - Position.Line (FuncDecl.Pos fn)))
            (Message v)) v2"
       "length v2 =
         (if StructureConfig.Enabled (Structure (config c)) \<and>
             BaseRule.Enabled (MaxFunctionLines (StructureConfig.Rules (Structure (config c)))) \<and>
             Position.Line (FuncDecl.End fn) - Position.Line (FuncDecl.Pos fn) >
               Limit (MaxFunctionLines (StructureConfig.Rules (Structure (config c))))
          then 1 else 0)"
    unfolding c2_def [symmetric] cf by blast
  from checkFunction_params_added [of c2 fn fp] obtain v3 where
    3: "Violations (report c3) = Violations (report c2) @ v3"
       "list_all (\<lambda>v. Rule v = ''max_parameters'') v3"
       "length v3 =
         (if StructureConfig.Enabled (Structure (config c)) \<and>
             BaseRule.Enabled (MaxParameters (StructureConfig.Rules (Structure (config c)))) \<and>
             (case Params fn of None \<Rightarrow> False
              | Some ps \<Rightarrow> int (length ps) >
                  Limit (MaxParameters (StructureConfig.Rules (Structure (config c)))))
          then 1 else 0)"
    unfolding c3_def [symmetric] cf by blast
  from checkFunction_results_added [of c3 fn fp] obtain v4 where
    4: "Violations (report c4) = Violations (report c3) @ v4"
       "list_all (\<lambda>v. Rule v = ''max_return_values'') v4"
       "length v4 =
         (if StructureConfig.Enabled (Structure (config c)) \<and>
             BaseRule.Enabled (MaxReturnValues (StructureConfig.Rules (Structure (config c)))) \<and>
             (case Results fn of None \<Rightarrow> False
              | Some rs \<Rightarrow> int (length rs) >
                  Limit (MaxReturnValues (StructureConfig.Rules (Structure (config c)))))
          then 1 else 0)"
    unfolding c4_def [symmetric] cf by blast
  from checkFunction_nesting_added [of c4 fn fp] obtain v5 where
    5: "Violations (report c5) = Violations (report c4) @ v5"
       "list_all (\<lambda>v. Rule v = ''max_nesting_level'') v5"
       "length v5 =
         (if StructureConfig.Enabled (Structure (config c)) \<and>
             BaseRule.Enabled (MaxNestingLevel (StructureConfig.Rules (Structure (config c)))) \<and>
             checkNestingLevel (Body fn) 0 >
               Limit (MaxNestingLevel (StructureConfig.Rules (Structure (config c))))
          then 1 else 0)"
    unfolding c5_def [symmetric] cf by blast
  have a: "added c (checkFunction env c fn fp) = v1 @ v2 @ v3 @ v4 @ v5"
    by (simp add: r added_def 1(1) 2(1) 3(1) 4(1) 5(1))
  show ?thesis
    using a 1(2,3) 2(2,3) 3(2,3) 4(2,3) 5(2,3) by blast
qed

subsection \<open>The limits\<close>

text \<open>
  With the structure rules switched on, each limit rule compares strictly. The line
  span of a function is its end line minus its start line: a span up to the limit
  gives no \<open>max_function_lines\<close> finding, a larger span gives exactly one, whose
  message is the formatted text with the function name, the span and the limit. The
  parameter and result rules give one finding when the length of the field list
  exceeds the limit, and the nesting rule when the value of \<open>checkNestingLevel\<close>
  does.
\<close>

lemma checkFunction_limits_strict:
  assumes "StructureConfig.Enabled (Structure (config c))"
  shows
    "(BaseRule.Enabled (MaxFunctionLines (StructureConfig.Rules (Structure (config c)))) \<longrightarrow>
        (let n = Position.Line (FuncDecl.End fn) - Position.Line (FuncDecl.Pos fn);
             l = Limit (MaxFunctionLines (StructureConfig.Rules (Structure (config c))));
             fs = findings_of ''max_function_lines'' (added c (checkFunction env c fn fp))
         in (n \<le> l \<longrightarrow> fs = []) \<and>
            (n > l \<longrightarrow>
               (\<exists>v. fs = [v] \<and>
                  Message v = Sprintf_max_function_lines (Ident.Name (FuncDecl.Name fn)) n l \<and>
                  sublist (itoa l) (Message v) \<and> sublist (itoa n) (Message v))))) \<and>
     (BaseRule.Enabled (MaxParameters (StructureConfig.Rules (Structure (config c)))) \<longrightarrow>
        length (findings_of ''max_parameters'' (added c (checkFunction env c fn fp))) =
          (case Params fn of
             None \<Rightarrow> 0
           | Some ps \<Rightarrow>
               if int (length ps) >
                  Limit (MaxParameters (StructureConfig.Rules (Structure (config c))))
               then 1 else 0)) \<and>
     (BaseRule.Enabled (MaxReturnValues (StructureConfig.Rules (Structure (config c)))) \<longrightarrow>
        length (findings_of ''max_return_values'' (added c (checkFunction env c fn fp))) =
          (case Results fn of
             None \<Rightarrow> 0
           | Some rs \<Rightarrow>
               if int (length rs) >
                  Limit (MaxReturnValues (StructureConfig.Rules (Structure (config c))))
               then 1 else 0)) \<and>
     (BaseRule.Enabled (MaxNestingLevel (StructureConfig.Rules (Structure (config c)))) \<longrightarrow>
        length (findings_of ''max_nesting_level'' (added c (checkFunction env c fn fp))) =
          (if checkNestingLevel (Body fn) 0 >
              Limit (MaxNestingLevel (StructureConfig.Rules (Structure (config c))))
           then 1 else 0))"
proof -
  from checkFunction_added [of c env fn fp] obtain v1 v2 v3 v4 v5 where
    a: "added c (checkFunction env c fn fp) = v1 @ v2 @ v3 @ v4 @ v5"
    and r1: "list_all (\<lambda>v. Rule v = ''exported_name'') v1"
    and r2: "list_all (\<lambda>v. Rule v = ''max_function_lines'' \<and>
        Message v =
          Sprintf_max_function_lines (Ident.Name (FuncDecl.Name fn))
            (Position.Line (FuncDecl.End fn) - Position.Line (FuncDecl.Pos fn))
            (Limit (MaxFunctionLines (StructureConfig.Rules (Structure (config c))))) \<and>
        sublist (itoa (Limit (MaxFunctionLines (StructureConfig.Rules (Structure (config c))))))
          (Message v) \<and>
        sublist (itoa (Position.Line (FuncDecl.End fn) - Position.Line (FuncDecl.Pos fn)))
          (Message v)) v2"
    and l2: "length v2 =
       (if StructureConfig.Enabled (Structure (config c)) \<and>
           BaseRule.Enabled (MaxFunctionLines (StructureConfig.Rules (Structure (config c)))) \<and>
           Position.Line (FuncDecl.End fn) - Position.Line (FuncDecl.Pos fn) >
             Limit (MaxFunctionLines (StructureConfig.Rules (Structure (config c))))
        then 1 else 0)"
    and r3: "list_all (\<lambda>v. Rule v = ''max_parameters'') v3"
    and l3: "length v3 =
       (if StructureConfig.Enabled (Structure (config c)) \<and>
           BaseRule.Enabled (MaxParameters (StructureConfig.Rules (Structure (config c)))) \<and>
           (case Params fn of None \<Rightarrow> False
            | Some ps \<Rightarrow> int (length ps) >
                Limit (MaxParameters (StructureConfig.Rules (Structure (config c)))))
        then 1 else 0)"
    and r4: "list_all (\<lambda>v. Rule v = ''max_return_values'') v4"
    and l4: "length v4 =
       (if StructureConfig.Enabled (Structure (config c)) \<and>
           BaseRule.Enabled (MaxReturnValues (StructureConfig.Rules (Structure (config c)))) \<and>
           (case Results fn of None \<Rightarrow> False
            | Some rs \<Rightarrow> int (length rs) >
                Limit (MaxReturnValues (StructureConfig.Rules (Structure (config c)))))
        then 1 else 0)"
    and r5: "list_all (\<lambda>v. Rule v = ''max_nesting_level'') v5"
    and l5: "length v5 =
       (if StructureConfig.Enabled (Structure (config c)) \<and>
           BaseRule.Enabled (MaxNestingLevel (StructureConfig.Rules (Structure (config c)))) \<and>
           checkNestingLevel (Body fn) 0 >
             Limit (MaxNestingLevel (StructureConfig.Rules (Structure (config c))))
        then 1 else 0)"
    by blast
  have r2': "list_all (\<lambda>v. Rule v = ''max_function_lines'') v2"
    using r2 by (induction v2) auto
  have f2: "findings_of ''max_function_lines'' (added c (checkFunction env c fn fp)) = v2"
    by (simp add: a findings_of_append findings_of_same [OF r2']
        findings_of_other [OF r1] findings_of_other [OF r3] findings_of_other [OF r4]
        findings_of_other [OF r5])
  have f3: "findings_of ''max_parameters'' (added c (checkFunction env c fn fp)) = v3"
    by (simp add: a findings_of_append findings_of_same [OF r3]
        findings_of_other [OF r1] findings_of_other [OF r2'] findings_of_other [OF r4]
        findings_of_other [OF r5])
  have f4: "findings_of ''max_return_values'' (added c (checkFunction env c fn fp)) = v4"
    by (simp add: a findings_of_append findings_of_same [OF r4]
        findings_of_other [OF r1] findings_of_other [OF r2'] findings_of_other [OF r3]
        findings_of_other [OF r5])
  have f5: "findings_of ''max_nesting_level'' (added c (checkFunction env c fn fp)) = v5"
    by (simp add: a findings_of_append findings_of_same [OF r5]
        findings_of_other [OF r1] findings_of_other [OF r2'] findings_of_other [OF r3]
        findings_of_other [OF r4])
  have p2: "BaseRule.Enabled (MaxFunctionLines (StructureConfig.Rules (Structure (config c)))) \<longrightarrow>
      (Position.Line (FuncDecl.End fn) - Position.Line (FuncDecl.Pos fn) \<le>
         Limit (MaxFunctionLines (StructureConfig.Rules (Structure (config c)))) \<longrightarrow> v2 = []) \<and>
      (Position.Line (FuncDecl.End fn) - Position.Line (FuncDecl.Pos fn) >
         Limit (MaxFunctionLines (StructureConfig.Rules (Structure (config c)))) \<longrightarrow>
         (\<exists>v. v2 = [v] \<and>
            Message v =
              Sprintf_max_function_lines (Ident.Name (FuncDecl.Name fn))
                (Position.Line (FuncDecl.End fn) - Position.Line (FuncDecl.Pos fn))
                (Limit (MaxFunctionLines (StructureConfig.Rules (Structure (config c))))) \<and>
            sublist (itoa (Limit (MaxFunctionLines (StructureConfig.Rules (Structure (config c))))))
              (Message v) \<and>
            sublist (itoa (Position.Line (FuncDecl.End fn) - Position.Line (FuncDecl.Pos fn)))
              (Message v)))"
  proof (cases v2)
    case Nil
    then show ?thesis using l2 assms by (auto split: if_splits)
  next
    case (Cons v vs)
    then have "vs = []" using l2 by (auto split: if_splits)
    then show ?thesis using Cons l2 r2 assms by (auto split: if_splits)
  qed
  have p3: "BaseRule.Enabled (MaxParameters (StructureConfig.Rules (Structure (config c)))) \<longrightarrow>
      length v3 =
        (case Params fn of
           None \<Rightarrow> 0
         | Some ps \<Rightarrow>
             if int (length ps) >
                Limit (MaxParameters (StructureConfig.Rules (Structure (config c))))
             then 1 else 0)"
    using l3 assms by (simp split: option.split)
  have p4: "BaseRule.Enabled (MaxReturnValues (StructureConfig.Rules (Structure (config c)))) \<longrightarrow>
      length v4 =
        (case Results fn of
           None \<Rightarrow> 0
         | Some rs \<Rightarrow>
             if int (length rs) >
                Limit (MaxReturnValues (StructureConfig.Rules (Structure (config c))))
             then 1 else 0)"
    using l4 assms by (simp split: option.split)
  have p5: "BaseRule.Enabled (MaxNestingLevel (StructureConfig.Rules (Structure (config c)))) \<longrightarrow>
      length v5 =
        (if checkNestingLevel (Body fn) 0 >
            Limit (MaxNestingLevel (StructureConfig.Rules (Structure (config c))))
         then 1 else 0)"
    using l5 assms by simp
  show ?thesis
    unfolding Let_def f2 f3 f4 f5 using p2 p3 p4 p5 by blast
qed

lemma checker_ex_structure:
  "StructureConfig.Enabled (Structure (config checker_ex))"
  "BaseRule.Enabled (MaxFunctionLines (StructureConfig.Rules (Structure (config checker_ex))))"
  "Limit (MaxFunctionLines (StructureConfig.Rules (Structure (config checker_ex)))) = 5"
  by (simp_all add: checker_ex_def NewChecker_def config_ex_def limit_rule_def)

lemma checker_ex_naming:
  "NamingConfig.Enabled (Naming (config checker_ex))"
  "BaseRule.Enabled (ExportedNames (NamingConfig.Rules (Naming (config checker_ex))))"
  by (simp_all add: checker_ex_def NewChecker_def config_ex_def base_rule_def)

lemma func_ex_fields:
  "Position.Line (FuncDecl.End (func_ex n l e)) = e"
  "Position.Line (FuncDecl.Pos (func_ex n l e)) = l"
  "Ident.Name (FuncDecl.Name (func_ex n l e)) = n"
  by (simp_all add: func_ex_def ident_def)

lemma checkFunction_limits_strict_example:
  "StructureConfig.Enabled (Structure (config checker_ex)) \<and>
   BaseRule.Enabled (MaxFunctionLines (StructureConfig.Rules (Structure (config checker_ex)))) \<and>
   Limit (MaxFunctionLines (StructureConfig.Rules (Structure (config checker_ex)))) = 5 \<and>
   findings_of ''max_function_lines''
     (added checker_ex (checkFunction env_ex checker_ex (func_ex ''Run'' 10 15) ''b.go'')) = [] \<and>
   map Message (findings_of ''max_function_lines''
     (added checker_ex (checkFunction env_ex checker_ex (func_ex ''Run'' 10 16) ''b.go''))) =
     [Sprintf_max_function_lines ''Run'' 6 5]"
proof -
  note e = checker_ex_structure
  have 1: "findings_of ''max_function_lines''
     (added checker_ex (checkFunction env_ex checker_ex (func_ex ''Run'' 10 15) ''b.go'')) = []"
    using checkFunction_limits_strict [OF e(1), of "func_ex ''Run'' 10 15" env_ex "''b.go''"]
    by (simp add: e func_ex_fields Let_def)
  have 2: "map Message (findings_of ''max_function_lines''
     (added checker_ex (checkFunction env_ex checker_ex (func_ex ''Run'' 10 16) ''b.go''))) =
     [Sprintf_max_function_lines ''Run'' 6 5]"
    using checkFunction_limits_strict [OF e(1), of "func_ex ''Run'' 10 16" env_ex "''b.go''"]
    by (auto simp add: e func_ex_fields Let_def)
  show ?thesis using e 1 2 by simp
qed

text \<open>
  The decimal digits, and the message of the README's sample report: a function
  \<open>ProcessData\<close> of 75 lines under a limit of 50.
\<close>

lemma char_of_digit:
  "char_of (48::nat) = CHR ''0''" "char_of (53::nat) = CHR ''5''"
  "char_of (54::nat) = CHR ''6''" "char_of (55::nat) = CHR ''7''"
  "char_of (51::nat) = CHR ''3''"
  by code_simp+

lemma itoa_examples:
  "itoa 5 = ''5''" "itoa 6 = ''6''" "itoa 50 = ''50''" "itoa 75 = ''75''" "itoa (- 3) = ''-3''"
  by (simp_all add: itoa_def digits.simps char_of_digit)

lemma Sprintf_max_function_lines_README:
  "Sprintf_max_function_lines ''ProcessData'' 75 50 =
     ([CHR 0xE9, CHR 0x96, CHR 0xA2, CHR 0xE6, CHR 0x95, CHR 0xB0] @ '' '' @ [CHR 0x27]
         @ ''ProcessData'' @ [CHR 0x27] @ '' '' @ [CHR 0xE3, CHR 0x81, CHR 0xAF] @ ''75''
         @ [CHR 0xE8, CHR 0xA1, CHR 0x8C, CHR 0xE3, CHR 0x81, CHR 0x82, CHR 0xE3, CHR 0x82,
         CHR 0x8A, CHR 0xE3, CHR 0x81, CHR 0xBE, CHR 0xE3, CHR 0x81, CHR 0x99, CHR 0xEF,
         CHR 0xBC, CHR 0x88, CHR 0xE4, CHR 0xB8, CHR 0x8A, CHR 0xE9, CHR 0x99, CHR 0x90]
         @ '': 50'' @ [CHR 0xE8, CHR 0xA1, CHR 0x8C, CHR 0xEF, CHR 0xBC, CHR 0x89])"
  by (simp add: Sprintf_max_function_lines_def itoa_examples)

lemma checker_ex_limits:
  "BaseRule.Enabled (MaxParameters (StructureConfig.Rules (Structure (config checker_ex))))"
  "Limit (MaxParameters (StructureConfig.Rules (Structure (config checker_ex)))) = 2"
  "BaseRule.Enabled (MaxReturnValues (StructureConfig.Rules (Structure (config checker_ex))))"
  "Limit (MaxReturnValues (StructureConfig.Rules (Structure (config checker_ex)))) = 2"
  "BaseRule.Enabled (MaxNestingLevel (StructureConfig.Rules (Structure (config checker_ex))))"
  "Limit (MaxNestingLevel (StructureConfig.Rules (Structure (config checker_ex)))) = 3"
  by (simp_all add: checker_ex_def NewChecker_def config_ex_def limit_rule_def)

lemma func_examples:
  "map (\<lambda>f. map Ident.Name (Names f)) (the (Params func_abc)) = [[''a'', ''b'', ''c'']]"
  "NumFields (the (Params func_abc)) = 3"
  "Params func_abc \<noteq> None" "length (the (Params func_abc)) = 1"
  "map (\<lambda>f. map Ident.Name (Names f)) (the (Results func_xyz)) = [[''x'', ''y'', ''z'']]"
  "NumFields (the (Results func_xyz)) = 3"
  "Results func_xyz \<noteq> None" "length (the (Results func_xyz)) = 1"
  "checkNestingLevel (Body func_else_if) 0 = 1"
  "checkNestingLevel (Body func_else) 0 = 4"
  by (simp_all add: func_abc_def func_xyz_def func_else_if_def func_else_def func_ex_def
      ident_def NumFields_def loops3_def)

text \<open>
  Claim C6. The claim is that all four limit rules trigger above the limit and not at
  it. The line rule does (see above). The parameter and result rules compare the
  number of fields of the list, and a field may name several parameters: \<open>f\<close> has
  three parameters in one field and \<open>h\<close> three results in one field, both above
  the limit 2, and neither gets a finding. The nesting rule compares the value of
  \<open>checkNestingLevel\<close>, which leaves out what an \<open>else if\<close> holds: three loops
  nested under an \<open>else if\<close> get no finding at limit 3, and the same loops under a
  plain \<open>else\<close> get one.
\<close>

theorem limit_rules_miss_parameters_and_nesting:
  "Limit (MaxParameters (StructureConfig.Rules (Structure (config checker_ex)))) = 2 \<and>
   map (\<lambda>f. map Ident.Name (Names f)) (the (Params func_abc)) = [[''a'', ''b'', ''c'']] \<and>
   NumFields (the (Params func_abc)) = 3 \<and>
   findings_of ''max_parameters''
     (added checker_ex (checkFunction env_ex checker_ex func_abc ''b.go'')) = [] \<and>
   Limit (MaxReturnValues (StructureConfig.Rules (Structure (config checker_ex)))) = 2 \<and>
   map (\<lambda>f. map Ident.Name (Names f)) (the (Results func_xyz)) = [[''x'', ''y'', ''z'']] \<and>
   NumFields (the (Results func_xyz)) = 3 \<and>
   findings_of ''max_return_values''
     (added checker_ex (checkFunction env_ex checker_ex func_xyz ''b.go'')) = [] \<and>
   Limit (MaxNestingLevel (StructureConfig.Rules (Structure (config checker_ex)))) = 3 \<and>
   Body func_else_if = Some [IfStmt (Some []) (Some (IfStmt (Some loops3) None))] \<and>
   findings_of ''max_nesting_level''
     (added checker_ex (checkFunction env_ex checker_ex func_else_if ''b.go'')) = [] \<and>
   Body func_else = Some [IfStmt (Some []) (Some (BlockStmt loops3))] \<and>
   length (findings_of ''max_nesting_level''
     (added checker_ex (checkFunction env_ex checker_ex func_else ''b.go''))) = 1"
proof -
  note e = checker_ex_structure(1)
  note l = checker_ex_limits
  have p: "findings_of ''max_parameters''
     (added checker_ex (checkFunction env_ex checker_ex func_abc ''b.go'')) = []"
    using checkFunction_limits_strict [OF e, of func_abc env_ex "''b.go''"] func_examples(3,4)
    by (auto simp: l)
  have r: "findings_of ''max_return_values''
     (added checker_ex (checkFunction env_ex checker_ex func_xyz ''b.go'')) = []"
    using checkFunction_limits_strict [OF e, of func_xyz env_ex "''b.go''"] func_examples(7,8)
    by (auto simp: l)
  have n1: "findings_of ''max_nesting_level''
     (added checker_ex (checkFunction env_ex checker_ex func_else_if ''b.go'')) = []"
    using checkFunction_limits_strict [OF e, of func_else_if env_ex "''b.go''"]
    by (simp add: l func_examples)
  have n2: "length (findings_of ''max_nesting_level''
     (added checker_ex (checkFunction env_ex checker_ex func_else ''b.go''))) = 1"
    using checkFunction_limits_strict [OF e, of func_else env_ex "''b.go''"]
    by (simp add: l func_examples)
  have b: "Body func_else_if = Some [IfStmt (Some []) (Some (IfStmt (Some loops3) None))]"
    "Body func_else = Some [IfStmt (Some []) (Some (BlockStmt loops3))]"
    by (simp_all add: func_else_if_def func_else_def)
  show ?thesis using p r n1 n2 b l func_examples by simp
qed


subsection \<open>Exported names\<close>

lemma isPascalCase_Cons: "isPascalCase (ch # rest) \<longleftrightarrow> CHR ''A'' \<le> ch \<and> ch \<le> CHR ''Z''"
  by (auto simp: isPascalCase_def)

lemma char_range_AZ:
  "CHR ''A'' \<le> ch \<and> ch \<le> CHR ''Z'' \<longleftrightarrow> 65 \<le> (of_char ch :: nat) \<and> (of_char ch :: nat) \<le> 90"
  by (simp add: less_eq_char_def)

lemma ast_IsExported_ascii:
  assumes "unicode_ascii_ok env" and "of_char ch < (128::nat)"
  shows "ast_IsExported env (ch # rest) \<longleftrightarrow> CHR ''A'' \<le> ch \<and> ch \<le> CHR ''Z''"
  using assms by (simp add: ast_IsExported_def unicode_ascii_ok_def char_range_AZ)

lemma ast_IsExported_Nil: "unicode_ascii_ok env \<Longrightarrow> \<not> ast_IsExported env []"
  by (simp add: ast_IsExported_def unicode_ascii_ok_def)

lemma exported_name_findings:
  "findings_of ''exported_name'' (added c (checkFunction env c fn fp)) \<noteq> [] \<longleftrightarrow>
     NamingConfig.Enabled (Naming (config c)) \<and>
     BaseRule.Enabled (ExportedNames (NamingConfig.Rules (Naming (config c)))) \<and>
     ast_IsExported env (Ident.Name (FuncDecl.Name fn)) \<and>
     \<not> isPascalCase (Ident.Name (FuncDecl.Name fn))"
proof -
  from checkFunction_added [of c env fn fp] obtain v1 v2 v3 v4 v5 where
    a: "added c (checkFunction env c fn fp) = v1 @ v2 @ v3 @ v4 @ v5"
    and r1: "list_all (\<lambda>v. Rule v = ''exported_name'') v1"
    and n1: "v1 \<noteq> [] \<longleftrightarrow>
        NamingConfig.Enabled (Naming (config c)) \<and>
        BaseRule.Enabled (ExportedNames (NamingConfig.Rules (Naming (config c)))) \<and>
        ast_IsExported env (Ident.Name (FuncDecl.Name fn)) \<and>
        \<not> isPascalCase (Ident.Name (FuncDecl.Name fn))"
    and r2: "list_all (\<lambda>v. Rule v = ''max_function_lines'' \<and>
        Message v =
          Sprintf_max_function_lines (Ident.Name (FuncDecl.Name fn))
            (Position.Line (FuncDecl.End fn) - Position.Line (FuncDecl.Pos fn))
            (Limit (MaxFunctionLines (StructureConfig.Rules (Structure (config c))))) \<and>
        sublist (itoa (Limit (MaxFunctionLines (StructureConfig.Rules (Structure (config c))))))
          (Message v) \<and>
        sublist (itoa (Position.Line (FuncDecl.End fn) - Position.Line (FuncDecl.Pos fn)))
          (Message v)) v2"
    and r3: "list_all (\<lambda>v. Rule v = ''max_parameters'') v3"
    and r4: "list_all (\<lambda>v. Rule v = ''max_return_values'') v4"
    and r5: "list_all (\<lambda>v. Rule v = ''max_nesting_level'') v5"
    by blast
  have r2': "list_all (\<lambda>v. Rule v = ''max_function_lines'') v2"
    using r2 by (induction v2) auto
  have "findings_of ''exported_name'' (added c (checkFunction env c fn fp)) = v1"
    by (simp add: a findings_of_append findings_of_same [OF r1]
        findings_of_other [OF r2'] findings_of_other [OF r3] findings_of_other [OF r4]
        findings_of_other [OF r5])
  then show ?thesis using n1 by simp
qed

text \<open>
  Claim C10. Given the ASCII facts of the library, a function whose name begins with
  an ASCII character never gets an \<open>exported_name\<close> finding: a name beginning
  with \<open>A\<close> to \<open>Z\<close> passes \<open>isPascalCase\<close>, and a name beginning with any other
  ASCII character is not exported. A finding of that rule arises only for a name whose
  first byte is not ASCII and whose first rune is an upper-case letter.
\<close>

theorem exported_name_only_non_ascii:
  assumes "unicode_ascii_ok env"
  shows
    "(\<forall>ch rest. Ident.Name (FuncDecl.Name fn) = ch # rest \<and> of_char ch < (128::nat) \<longrightarrow>
        findings_of ''exported_name'' (added c (checkFunction env c fn fp)) = [] \<and>
        (CHR ''A'' \<le> ch \<and> ch \<le> CHR ''Z'' \<longrightarrow> isPascalCase (ch # rest)) \<and>
        (\<not> (CHR ''A'' \<le> ch \<and> ch \<le> CHR ''Z'') \<longrightarrow> \<not> ast_IsExported env (ch # rest))) \<and>
     (findings_of ''exported_name'' (added c (checkFunction env c fn fp)) \<noteq> [] \<longrightarrow>
        (\<exists>ch rest. Ident.Name (FuncDecl.Name fn) = ch # rest \<and> of_char ch \<ge> (128::nat) \<and>
           unicode_IsUpper env (fst (utf8_DecodeRuneInString env (ch # rest)))))"
proof -
  have a: "findings_of ''exported_name'' (added c (checkFunction env c fn fp)) = []"
    if "Ident.Name (FuncDecl.Name fn) = ch # rest" and "of_char ch < (128::nat)" for ch rest
    using exported_name_findings [of c env fn fp] that
      ast_IsExported_ascii [OF assms that(2), of rest]
    by (auto simp: isPascalCase_Cons)
  have b: "\<exists>ch rest. Ident.Name (FuncDecl.Name fn) = ch # rest \<and> of_char ch \<ge> (128::nat) \<and>
      unicode_IsUpper env (fst (utf8_DecodeRuneInString env (ch # rest)))"
    if f: "findings_of ''exported_name'' (added c (checkFunction env c fn fp)) \<noteq> []"
  proof (cases "Ident.Name (FuncDecl.Name fn)")
    case Nil
    then show ?thesis
      using f exported_name_findings [of c env fn fp] ast_IsExported_Nil [OF assms] by simp
  next
    case (Cons ch rest)
    have "\<not> of_char ch < (128::nat)" using a [OF Cons] f by blast
    moreover have "unicode_IsUpper env (fst (utf8_DecodeRuneInString env (ch # rest)))"
      using f exported_name_findings [of c env fn fp] Cons by (simp add: ast_IsExported_def)
    ultimately show ?thesis using Cons by auto
  qed
  show ?thesis
    using a b ast_IsExported_ascii [OF assms] by (auto simp: isPascalCase_Cons)
qed

lemma unicode_ascii_ok_env_ex: "unicode_ascii_ok env_ex"
  by (simp add: unicode_ascii_ok_def env_ex_def decode_ex_def IsUpper_ex_def)

theorem exported_name_only_non_ascii_witness:
  "unicode_ascii_ok env_ex \<and> of_char CHR ''R'' < (128::nat) \<and>
   findings_of ''exported_name''
     (added checker_ex (checkFunction env_ex checker_ex (func_ex ''Run'' 3 5) ''b.go'')) = [] \<and>
   of_char CHR ''r'' < (128::nat) \<and>
   findings_of ''exported_name''
     (added checker_ex (checkFunction env_ex checker_ex (func_ex ''run'' 3 5) ''b.go'')) = [] \<and>
   findings_of ''exported_name''
     (added checker_ex
        (checkFunction env_ex checker_ex (func_ex [CHR 0xC3, CHR 0x84,
            CHR ''b''] 3 5) ''b.go''))
     \<noteq> [] \<and>
   of_char (CHR 0xC3) \<ge> (128::nat)"
proof -
  note t = exported_name_only_non_ascii [OF unicode_ascii_ok_env_ex, THEN conjunct1, rule_format]
  have 1: "findings_of ''exported_name''
     (added checker_ex (checkFunction env_ex checker_ex (func_ex ''Run'' 3 5) ''b.go'')) = []"
    using t [of "func_ex ''Run'' 3 5" "CHR ''R''" "''un''" checker_ex "''b.go''"]
    by (simp add: func_ex_fields)
  have 2: "findings_of ''exported_name''
     (added checker_ex (checkFunction env_ex checker_ex (func_ex ''run'' 3 5) ''b.go'')) = []"
    using t [of "func_ex ''run'' 3 5" "CHR ''r''" "''un''" checker_ex "''b.go''"]
    by (simp add: func_ex_fields)
  have 3: "findings_of ''exported_name''
     (added checker_ex
        (checkFunction env_ex checker_ex (func_ex [CHR 0xC3, CHR 0x84,
            CHR ''b''] 3 5) ''b.go''))
     \<noteq> []"
    by (simp add: exported_name_findings checker_ex_naming func_ex_fields ast_IsExported_def
        isPascalCase_def env_ex_def decode_ex_def IsUpper_ex_def)
  show ?thesis using unicode_ascii_ok_env_ex 1 2 3 by simp
qed

subsection \<open>Nesting depth\<close>

text \<open>
  The depth never falls below the starting level, statements other than the five
  nestable constructs leave it alone, and a plain \<open>else\<close> block is measured at the
  depth of the then-body.
\<close>

lemma nesting_ge:
  "checkNestingLevel b d \<ge> d"
  "nesting_loop l d m \<ge> m"
  "nesting_stmt s d m \<ge> m"
proof (induction b d and l d m and s d m rule: checkNestingLevel_nesting_loop_nesting_stmt.induct)
  case (4 stmt rest currentLevel maxLevel)
  then show ?case by simp
next
  case (5 body els currentLevel maxLevel)
  then show ?case by (auto simp: Let_def split: option.splits Stmt.splits)
qed (auto simp: Let_def)

lemma nesting_loop_flat:
  "\<forall>s \<in> set l. (\<forall>b e. s \<noteq> IfStmt b e) \<and> (\<forall>b. s \<noteq> ForStmt b) \<and> (\<forall>b. s \<noteq> RangeStmt b) \<and>
      (\<forall>b. s \<noteq> SwitchStmt b) \<and> (\<forall>b. s \<noteq> SelectStmt b) \<Longrightarrow>
   nesting_loop l d m = m"
proof (induction l arbitrary: m)
  case Nil
  then show ?case by simp
next
  case (Cons s l)
  then have "nesting_stmt s d m = m" by (cases s) auto
  with Cons show ?case by simp
qed

lemma checkNestingLevel_if_else:
  "checkNestingLevel (Some [IfStmt (Some b1) (Some (BlockStmt b2))]) d =
     max (checkNestingLevel (Some b1) (d + 1)) (checkNestingLevel (Some b2) (d + 1))"
  using nesting_ge(1) [of "d + 1" "Some b1"] by (auto simp: Let_def max_def)

lemma nesting_loop_clauses:
  "\<forall>s \<in> set cs. (\<exists>b. s = CaseClause b) \<or> (\<exists>b. s = CommClause b) \<Longrightarrow>
   nesting_loop cs d m = m"
  by (induction cs arbitrary: m) auto

text \<open>
  The body of a switch or select holds clauses only, so whatever the cases contain the
  construct counts for one level; and an \<open>else if\<close> is not descended into at all.
\<close>

lemma checkNestingLevel_switch:
  "\<forall>s \<in> set cs. \<exists>b. s = CaseClause b \<Longrightarrow>
   checkNestingLevel (Some [SwitchStmt (Some cs)]) d = d + 1"
  by (simp add: nesting_loop_clauses)

lemma nesting_stmt_else_if:
  "nesting_stmt (IfStmt body (Some (IfStmt b e))) d m = nesting_stmt (IfStmt body None) d m"
  by simp

text \<open>
  Claim C5. The claim takes the depth of a function as the maximum over its whole
  body, with every else-branch at the depth of the then-body. The code does not reach
  that maximum: an \<open>if\<close> holding a \<open>for\<close> inside a case of a \<open>switch\<close> gives 1,
  and two nested \<open>for\<close> loops inside an \<open>else if\<close> give 1, where the same loops
  inside a plain \<open>else\<close> give 3. An \<open>if\<close> holding a \<open>for\<close> gives 2 and a body
  without nestable construct gives 0, as claimed.
\<close>

theorem checkNestingLevel_misses_nested_constructs:
  "checkNestingLevel
     (Some [SwitchStmt (Some [CaseClause [IfStmt (Some [ForStmt (Some [])]) None]])]) 0 = 1 \<and>
   checkNestingLevel
     (Some [IfStmt (Some []) (Some (IfStmt (Some [ForStmt (Some [ForStmt (Some [])])]) None))]) 0 = 1 \<and>
   checkNestingLevel
     (Some [IfStmt (Some []) (Some (BlockStmt [ForStmt (Some [ForStmt (Some [])])]))]) 0 = 3 \<and>
   checkNestingLevel (Some [IfStmt (Some [ForStmt (Some [])]) None]) 0 = 2 \<and>
   checkNestingLevel (Some [OtherStmt, OtherStmt]) 0 = 0"
  by simp

section \<open>Custom rules, malformed patterns and parse failures\<close>

subsection \<open>Custom rules\<close>

lemma checkCustomRules_lines_eq:
  "checkCustomRules_lines env rule pattern fp c i ls =
     c\<lparr>report := (report c)\<lparr>Violations := Violations (report c) @
        map (\<lambda>(k, l). custom_finding env rule fp k l)
          (filter (\<lambda>(k, l). pattern l) (enumerate i ls))\<rparr>\<rparr>"
proof (induction ls arbitrary: c i)
  case Nil
  then show ?case by simp
next
  case (Cons l ls)
  show ?case
    by (simp add: Cons.IH addViolation_def AddViolation_def custom_finding_def)
qed

lemma Compile_ex_TODO: "Compile_ex ''TODO'' = Some (\<lambda>s. sublist ''TODO'' s)"
  by (simp add: Compile_ex_def literal_char_def)


lemma matches_lines_a:
  "filter (\<lambda>(k, l). sublist ''TODO'' l) (enumerate 0 lines_a) =
     [(1, ''  TODO TODO''), (3, ''  TODO'')]"
  by (simp add: lines_a_def sublist_code)

lemma matches_lines_b: "filter (\<lambda>(k, l). sublist ''TODO'' l) (enumerate 0 lines_b) = []"
  by (simp add: lines_b_def sublist_code)

lemma checker_a_fields:
  "config checker_a = config_ex"
  "cached_lines checker_a ''a.go'' = lines_a"
  "Violations (report checker_a) = []"
  by (simp_all add: checker_a_def checker_ex_def NewChecker_def cached_lines_def NewReport_def)

lemma todo_rule_fields:
  "CustomRule.Enabled todo_rule" "ExcludeFiles todo_rule = []"
  "CustomRule.Pattern todo_rule = ''TODO''" "CustomRule.Name todo_rule = ''todo''"
  by (simp_all add: todo_rule_def)

lemma env_ex_fields:
  "regexp_Compile env_ex = Compile_ex"
  "sort_Slice env_ex = insertionSort_func"
  "collectGoFiles env_ex d = Inr [''a.go'', ''b.go'']"
  "os_ScanLines env_ex ''a.go'' = Inr lines_a"
  "os_ScanLines env_ex ''b.go'' = Inr lines_b"
  "parser_ParseFile env_ex ''a.go'' = Inl ''expected declaration''"
  "parser_ParseFile env_ex ''b.go'' = Inr file_b"
  by (simp_all add: env_ex_def)

lemma checkCustomRules_added_single:
  assumes "CustomRules (config c) = [rule]"
  shows "checkCustomRules env c fp = checkCustomRules_rule env fp c rule"
  using assms by (simp add: checkCustomRules_def)

text \<open>
  Claim C7, as stated, fails on its last part. The second line of \<open>a.go\<close> holds
  \<open>TODO\<close> twice, and the custom rule with pattern \<open>TODO\<close> reports that line
  once: the rule asks of each line whether the pattern matches it.
\<close>

theorem custom_rule_two_matches_one_finding:
  "lines_a ! 1 = ''  '' @ ''TODO'' @ '' '' @ ''TODO'' \<and>
   cached_lines checker_a ''a.go'' = lines_a \<and>
   CustomRules (config checker_a) = [todo_rule] \<and>
   CustomRule.Pattern todo_rule = ''TODO'' \<and>
   map Line (added checker_a (checkCustomRules env_ex checker_a ''a.go'')) = [2, 4] \<and>
   length (filter (\<lambda>v. Line v = 2) (added checker_a (checkCustomRules env_ex checker_a ''a.go'')))
     = 1"
proof -
  have c: "CustomRules (config checker_a) = [todo_rule]"
    by (simp add: checker_a_fields config_ex_def)
  have e: "CustomRule.Enabled todo_rule \<and> ExcludeFiles todo_rule = [] \<and>
      regexp_Compile env_ex (CustomRule.Pattern todo_rule) = Some (\<lambda>s. sublist ''TODO'' s)"
    by (simp add: todo_rule_fields env_ex_fields Compile_ex_TODO)
  have a: "added checker_a (checkCustomRules env_ex checker_a ''a.go'') =
     [custom_finding env_ex todo_rule ''a.go'' 1 ''  TODO TODO'',
      custom_finding env_ex todo_rule ''a.go'' 3 ''  TODO'']"
    using e
    by (simp add: checkCustomRules_added_single [OF c] checkCustomRules_rule_def
        checkCustomRules_lines_eq added_def checker_a_fields(3)
        checker_a_fields(2) [unfolded cached_lines_def] matches_lines_a)
  show ?thesis
    by (simp add: a c checker_a_fields(2) todo_rule_fields custom_finding_def lines_a_def)
qed

text \<open>
  Claim C7, amended. An enabled custom rule whose pattern compiles, on a file it does
  not exclude, appends one finding for each line of the file that matches the pattern,
  in line order, however many matches a line holds. Each finding carries the number of its
  line (index plus one), the name of the rule, the category \<open>custom\<close> and the file;
  so two matching lines give exactly two findings.
\<close>

theorem custom_rule_one_finding_per_line:
  assumes "CustomRule.Enabled rule"
    and "\<not> list_ex (\<lambda>pattern. filepath_Match env pattern (filepath_Base env fp)) (ExcludeFiles rule)"
    and "regexp_Compile env (CustomRule.Pattern rule) = Some pattern"
  shows "added c (checkCustomRules_rule env fp c rule) =
           map (\<lambda>(k, l). custom_finding env rule fp k l)
             (filter (\<lambda>(k, l). pattern l) (enumerate 0 (cached_lines c fp))) \<and>
         length (added c (checkCustomRules_rule env fp c rule)) =
           length (filter pattern (cached_lines c fp)) \<and>
         list_all (\<lambda>v. Rule v = CustomRule.Name rule \<and> Category v = ''custom'' \<and> File v = fp)
           (added c (checkCustomRules_rule env fp c rule))"
proof -
  let ?ls = "cached_lines c fp"
  have a: "added c (checkCustomRules_rule env fp c rule) =
      map (\<lambda>(k, l). custom_finding env rule fp k l)
        (filter (\<lambda>(k, l). pattern l) (enumerate 0 ?ls))"
    using assms
    by (simp add: checkCustomRules_rule_def checkCustomRules_lines_eq added_def cached_lines_def)
  have l: "length (filter (\<lambda>(k, l). pattern l) (enumerate i ls)) = length (filter pattern ls)"
    for i ls
    by (induction ls arbitrary: i) simp_all
  have p: "list_all (\<lambda>v. Rule v = CustomRule.Name rule \<and> Category v = ''custom'' \<and> File v = fp)
      (map (\<lambda>(k, l). custom_finding env rule fp k l) xs)" for xs
    by (induction xs) (auto simp: custom_finding_def)
  show ?thesis
    unfolding a using l p by simp
qed

theorem custom_rule_one_finding_per_line_witness:
  "CustomRule.Enabled todo_rule \<and>
   \<not> list_ex (\<lambda>pattern. filepath_Match env_ex pattern (filepath_Base env_ex ''a.go''))
       (ExcludeFiles todo_rule) \<and>
   regexp_Compile env_ex (CustomRule.Pattern todo_rule) = Some (\<lambda>s. sublist ''TODO'' s) \<and>
   added checker_a (checkCustomRules_rule env_ex ''a.go'' checker_a todo_rule) =
     [custom_finding env_ex todo_rule ''a.go'' 1 ''  TODO TODO'',
      custom_finding env_ex todo_rule ''a.go'' 3 ''  TODO''] \<and>
   Line (custom_finding env_ex todo_rule ''a.go'' 1 ''  TODO TODO'') = 2 \<and>
   Line (custom_finding env_ex todo_rule ''a.go'' 3 ''  TODO'') = 4"
proof -
  have 1: "CustomRule.Enabled todo_rule" by (simp add: todo_rule_fields)
  have 2: "\<not> list_ex (\<lambda>pattern. filepath_Match env_ex pattern (filepath_Base env_ex ''a.go''))
       (ExcludeFiles todo_rule)" by (simp add: todo_rule_fields)
  have 3: "regexp_Compile env_ex (CustomRule.Pattern todo_rule) = Some (\<lambda>s. sublist ''TODO'' s)"
    by (simp add: todo_rule_fields env_ex_fields Compile_ex_TODO)
  have 4: "added checker_a (checkCustomRules_rule env_ex ''a.go'' checker_a todo_rule) =
     [custom_finding env_ex todo_rule ''a.go'' 1 ''  TODO TODO'',
      custom_finding env_ex todo_rule ''a.go'' 3 ''  TODO'']"
    using custom_rule_one_finding_per_line [OF 1 2 3, of checker_a, THEN conjunct1]
    by (simp add: checker_a_fields matches_lines_a)
  show ?thesis using 1 2 3 4 by (simp add: custom_finding_def)
qed

subsection \<open>Malformed patterns\<close>

lemma Check_returns_report:
  "collectGoFiles env d = Inr fs \<Longrightarrow> fst (Check env c d) = Inr (report (snd (Check env c d)))"
  by (simp add: Check_def Let_def)










subsection \<open>Parse failures\<close>

lemma Check_file_parse_error:
  assumes "readFileLines env fp = Inr lines" and "parser_ParseFile env fp = Inl err"
  shows "Check_file env c fp =
           c\<lparr>fileMap := (fileMap c)(fp \<mapsto> lines),
             stdout := stdout c @
               [''Warning: failed to check '' @ fp @ '': '' @ (''parse error: '' @ err) @
                [CHR 0x0A]]\<rparr>"
  using assms by (simp add: Check_file_def checkFile_def Let_def)

text \<open>
  Claim C9, amended. When a file is read but fails to parse, \<open>checkFile\<close> adds no
  finding for it: the report is unchanged, a warning naming the file and the parse
  error is printed, and the loop goes on with the files that follow; the scan returns
  its report. The lines of the file stay cached, so the second pass still evaluates
  the custom rules on them.
\<close>

theorem parse_failure_skips_file:
  assumes "readFileLines env fp = Inr lines" and "parser_ParseFile env fp = Inl err"
  shows "Check_file env c fp =
           c\<lparr>fileMap := (fileMap c)(fp \<mapsto> lines),
             stdout := stdout c @
               [''Warning: failed to check '' @ fp @ '': '' @ (''parse error: '' @ err) @
                [CHR 0x0A]]\<rparr> \<and>
         report (Check_file env c fp) = report c \<and>
         cached_lines (Check_file env c fp) fp = lines \<and>
         foldl (Check_file env) c (pre @ fp # post) =
           foldl (Check_file env) (Check_file env (foldl (Check_file env) c pre) fp) post \<and>
         (\<forall>fs. collectGoFiles env d = Inr fs \<longrightarrow> (\<exists>r. fst (Check env c0 d) = Inr r))"
proof -
  note e = Check_file_parse_error [OF assms]
  have "\<forall>fs. collectGoFiles env d = Inr fs \<longrightarrow> (\<exists>r. fst (Check env c0 d) = Inr r)"
    using Check_returns_report by blast
  then show ?thesis
    by (simp add: e cached_lines_def)
qed

theorem parse_failure_skips_file_witness:
  "readFileLines env_ex ''a.go'' = Inr lines_a \<and>
   parser_ParseFile env_ex ''a.go'' = Inl ''expected declaration'' \<and>
   report (Check_file env_ex checker_ex ''a.go'') = report checker_ex \<and>
   stdout (Check_file env_ex checker_ex ''a.go'') =
     [''Warning: failed to check a.go: parse error: expected declaration'' @ [CHR 0x0A]] \<and>
   cached_lines (Check_file env_ex checker_ex ''a.go'') ''a.go'' = lines_a"
proof -
  have 1: "readFileLines env_ex ''a.go'' = Inr lines_a"
    by (simp add: readFileLines_def env_ex_fields)
  have 2: "parser_ParseFile env_ex ''a.go'' = Inl ''expected declaration''"
    by (simp add: env_ex_fields)
  note t = parse_failure_skips_file [OF 1 2, of checker_ex]
  have s: "stdout checker_ex = []" by (simp add: checker_ex_def NewChecker_def)
  have 3: "stdout (Check_file env_ex checker_ex ''a.go'') =
     [''Warning: failed to check a.go: parse error: expected declaration'' @ [CHR 0x0A]]"
    using t [THEN conjunct1] by (simp add: s)
  show ?thesis using 1 2 3 t by blast
qed

lemma env_one_fields:
  "regexp_Compile env_one = Compile_ex"
  "sort_Slice env_one = insertionSort_func"
  "collectGoFiles env_one d = Inr [''a.go'']"
  "filepath_Base env_one = Base_ex"
  "strings_TrimSpace env_one = TrimSpace_ex"
  "readFileLines env_one ''a.go'' = Inr lines_a"
  "parser_ParseFile env_one ''a.go'' = Inl ''expected declaration''"
  by (simp_all add: env_one_def env_ex_def readFileLines_def)

lemma checker_ex_directory:
  "\<not> DirectoryConfig.Enabled (Directory (config checker_ex))"
  "CustomRules (config checker_ex) = [todo_rule]"
  "fileMap checker_ex = Map.empty"
  by (simp_all add: checker_ex_def NewChecker_def config_ex_def)

text \<open>
  Claim C9, as stated, fails for the custom rules. In a directory holding only
  \<open>a.go\<close>, which the parser rejects, the scan returns a report with two findings
  of the custom rule \<open>todo\<close> for \<open>a.go\<close>, on lines 2 and 4: its lines were cached
  before parsing and the second pass reads them.
\<close>

theorem parse_failure_keeps_custom_findings:
  "parser_ParseFile env_one ''a.go'' = Inl ''expected declaration'' \<and>
   collectGoFiles env_one ''.'' = Inr [''a.go''] \<and>
   fst (Check env_one checker_ex ''.'') = Inr (report (snd (Check env_one checker_ex ''.''))) \<and>
   map File (Violations (report (snd (Check env_one checker_ex ''.'')))) = [''a.go'', ''a.go''] \<and>
   map Rule (Violations (report (snd (Check env_one checker_ex ''.'')))) = [''todo'', ''todo''] \<and>
   map Category (Violations (report (snd (Check env_one checker_ex ''.'')))) =
     [''custom'', ''custom''] \<and>
   map Line (Violations (report (snd (Check env_one checker_ex ''.'')))) = [2, 4]"
proof -
  define c3 where
    "c3 = checker_ex\<lparr>report := (NewReport ''.'')\<lparr>TotalFiles := 1\<rparr>\<rparr>"
  define c4 where "c4 = Check_file env_one c3 ''a.go''"
  define c5 where "c5 = checkCustomRules env_one c4 ''a.go''"
  have c4: "c4 = c3\<lparr>fileMap := (fileMap c3)(''a.go'' \<mapsto> lines_a),
      stdout := stdout c3 @
        [''Warning: failed to check '' @ ''a.go'' @ '': '' @
         (''parse error: '' @ ''expected declaration'') @ [CHR 0x0A]]\<rparr>"
    unfolding c4_def by (rule Check_file_parse_error) (simp_all add: env_one_fields)
  have cfg: "CustomRules (config c4) = [todo_rule]"
    by (simp add: c4 c3_def checker_ex_directory)
  have ls: "fileMap c4 ''a.go'' = Some lines_a" by (simp add: c4)
  have v4: "Violations (report c4) = []" by (simp add: c4 c3_def NewReport_def)
  have v5: "Violations (report c5) =
      [custom_finding env_one todo_rule ''a.go'' 1 ''  TODO TODO'',
       custom_finding env_one todo_rule ''a.go'' 3 ''  TODO'']"
    unfolding c5_def
    by (simp add: checkCustomRules_added_single [OF cfg] checkCustomRules_rule_def
        todo_rule_fields env_one_fields Compile_ex_TODO checkCustomRules_lines_eq ls v4
        matches_lines_a)
  have C: "Check env_one checker_ex ''.'' =
      (Inr (Finalize insertionSort_func (report c5)),
       c5\<lparr>report := Finalize insertionSort_func (report c5)\<rparr>)"
    by (simp add: Check_def Let_def checker_ex_directory env_one_fields c5_def c4_def c3_def)
  have s: "Violations (Finalize insertionSort_func (report c5)) =
      [custom_finding env_one todo_rule ''a.go'' 1 ''  TODO TODO'',
       custom_finding env_one todo_rule ''a.go'' 3 ''  TODO'']"
    by (simp add: Finalize_fields v5 insertionSort_func_def less_violation_def
        custom_finding_def)
  show ?thesis
    by (simp add: C s env_one_fields custom_finding_def todo_rule_fields)
qed

end
